theory Spec2Isabelle
  imports Main "HOL-Library.Word"
begin

unbundle bit_operations_syntax

section \<open>Machine integers, C strings and the HAL status\<close>

type_synonym u8 = "8 word"
type_synonym u16 = "16 word"
type_synonym u32 = "32 word"

text \<open>
  Counters of the render engine are \<^verbatim>\<open>uint32_t\<close>. They are kept as natural numbers
  with the wrap-around of the C arithmetic written out.
\<close>

definition u32_add :: "nat \<Rightarrow> nat \<Rightarrow> nat" where
  "u32_add a b = (a + b) mod 2 ^ 32"

definition u32_sub :: "nat \<Rightarrow> nat \<Rightarrow> nat" where
  "u32_sub a b = (a + 2 ^ 32 - b mod 2 ^ 32) mod 2 ^ 32"

definition u32_mul :: "nat \<Rightarrow> nat \<Rightarrow> nat" where
  "u32_mul a b = (a * b) mod 2 ^ 32"

definition to_u16 :: "nat \<Rightarrow> nat" where
  "to_u16 n = n mod 2 ^ 16"

text \<open>
  A C string is represented by the list of its characters in front of the terminating
  NUL. \<open>c_str\<close> reads such a string out of an arbitrary character sequence.
\<close>

definition c_str :: "string \<Rightarrow> string" where
  "c_str cs = takeWhile (\<lambda>c. c \<noteq> CHR 0x00) cs"

text \<open>
  \<^verbatim>\<open>strncmp(a, b, n) == 0\<close> and \<^verbatim>\<open>strcmp(a, b) == 0\<close> on C strings, and the
  string left in a buffer by \<^verbatim>\<open>strncpy(dst, src, n); dst[n] = 0\<close>.
\<close>

definition strncmp_eq :: "string \<Rightarrow> string \<Rightarrow> nat \<Rightarrow> bool" where
  "strncmp_eq a b n = (take n a = take n b)"

definition strcmp_eq :: "string \<Rightarrow> string \<Rightarrow> bool" where
  "strcmp_eq a b = (a = b)"

definition strncpy_z :: "string \<Rightarrow> nat \<Rightarrow> string" where
  "strncpy_z src n = take n src"

text \<open>The status enumeration of the vendor HAL, as the drivers compare it.\<close>

datatype HAL_StatusTypeDef = HAL_OK | HAL_ERROR | HAL_BUSY | HAL_TIMEOUT

section \<open>Render engine (tft.c)\<close>

definition TFT_W :: nat where "TFT_W = 160"
definition TFT_H :: nat where "TFT_H = 128"
definition TFT_PIXELS :: nat where "TFT_PIXELS = TFT_W * TFT_H"

definition FONT_W :: nat where "FONT_W = 5"
definition FONT_H :: nat where "FONT_H = 7"
definition CHAR_SP :: nat where "CHAR_SP = 1"
definition CELL_W :: nat where "CELL_W = FONT_W + CHAR_SP"
definition LINE_H :: nat where "LINE_H = 8"
definition MAX_CHARS :: nat where "MAX_CHARS = TFT_W div CELL_W"

definition TFT_CHUNK_BYTES :: nat where "TFT_CHUNK_BYTES = 512"

datatype tft_op_t = TFT_OP_NONE | TFT_OP_FILL | TFT_OP_BLIT

text \<open>
  What the driver puts on the SPI bus: a command byte (DC low), a parameter byte
  (DC high) and a block of pixel bytes streamed by \<open>TFT_Task\<close>.
\<close>

datatype spi_ev = Cmd u8 | Dat u8 | Pix "u8 list"

text \<open>\<open>g_blit_ptr\<close> is either \<^verbatim>\<open>NULL\<close> or the address of \<open>g_linebuf\<close>.\<close>

datatype blit_ptr = PTR_NULL | PTR_LINEBUF

record tft_state =
  g_op :: tft_op_t
  g_fill_color :: u16
  g_fill_sent_pixels :: nat
  g_blit_ptr :: blit_ptr
  g_blit_len :: nat
  g_blit_sent :: nat
  g_linebuf :: "u16 list"
  pin_cs :: bool
  pin_dc :: bool
  pin_rst :: bool
  spi :: "spi_ev list"

text \<open>The pins are \<open>True\<close> when driven high. The static initialisers of tft.c:\<close>

definition tft_static :: tft_state where
  "tft_static = \<lparr> g_op = TFT_OP_NONE, g_fill_color = 0, g_fill_sent_pixels = 0,
     g_blit_ptr = PTR_NULL, g_blit_len = 0, g_blit_sent = 0,
     g_linebuf = replicate (TFT_W * LINE_H) 0,
     pin_cs = True, pin_dc = False, pin_rst = True, spi = [] \<rparr>"

definition CS_L :: "tft_state \<Rightarrow> tft_state" where "CS_L s = s\<lparr>pin_cs := False\<rparr>"
definition CS_H :: "tft_state \<Rightarrow> tft_state" where "CS_H s = s\<lparr>pin_cs := True\<rparr>"
definition DC_L :: "tft_state \<Rightarrow> tft_state" where "DC_L s = s\<lparr>pin_dc := False\<rparr>"
definition DC_H :: "tft_state \<Rightarrow> tft_state" where "DC_H s = s\<lparr>pin_dc := True\<rparr>"
definition RST_L :: "tft_state \<Rightarrow> tft_state" where "RST_L s = s\<lparr>pin_rst := False\<rparr>"
definition RST_H :: "tft_state \<Rightarrow> tft_state" where "RST_H s = s\<lparr>pin_rst := True\<rparr>"

text \<open>\<open>tft_cmd\<close> and \<open>tft_data8\<close> ignore the result of the transmit call.\<close>

definition tft_cmd :: "u8 \<Rightarrow> tft_state \<Rightarrow> tft_state" where
  "tft_cmd c s = CS_H ((DC_L (CS_L s))\<lparr>spi := spi s @ [Cmd c]\<rparr>)"

definition tft_data8 :: "u8 \<Rightarrow> tft_state \<Rightarrow> tft_state" where
  "tft_data8 d s = CS_H ((DC_H (CS_L s))\<lparr>spi := spi s @ [Dat d]\<rparr>)"

definition TFT_SetAddrWindow :: "nat \<Rightarrow> nat \<Rightarrow> nat \<Rightarrow> nat \<Rightarrow> tft_state \<Rightarrow> tft_state" where
  "TFT_SetAddrWindow x0 y0 x1 y1 s =
     (let s = tft_cmd 0x2A s;
          s = tft_data8 (of_nat (x0 div 256)) s; s = tft_data8 (of_nat (x0 mod 256)) s;
          s = tft_data8 (of_nat (x1 div 256)) s; s = tft_data8 (of_nat (x1 mod 256)) s;
          s = tft_cmd 0x2B s;
          s = tft_data8 (of_nat (y0 div 256)) s; s = tft_data8 (of_nat (y0 mod 256)) s;
          s = tft_data8 (of_nat (y1 div 256)) s; s = tft_data8 (of_nat (y1 mod 256)) s
      in tft_cmd 0x2C s)"

definition font5x7 :: "u8 list list" where
  "font5x7 = [
     [0x00, 0x00, 0x00, 0x00, 0x00], [0x00, 0x00, 0x5F, 0x00, 0x00], [0x00, 0x07, 0x00, 0x07, 0x00],
     [0x14, 0x7F, 0x14, 0x7F, 0x14], [0x24, 0x2A, 0x7F, 0x2A, 0x12], [0x23, 0x13, 0x08, 0x64, 0x62],
     [0x36, 0x49, 0x55, 0x22, 0x50], [0x00, 0x05, 0x03, 0x00, 0x00], [0x00, 0x1C, 0x22, 0x41, 0x00],
     [0x00, 0x41, 0x22, 0x1C, 0x00], [0x14, 0x08, 0x3E, 0x08, 0x14], [0x08, 0x08, 0x3E, 0x08, 0x08],
     [0x00, 0x50, 0x30, 0x00, 0x00], [0x08, 0x08, 0x08, 0x08, 0x08], [0x00, 0x60, 0x60, 0x00, 0x00],
     [0x20, 0x10, 0x08, 0x04, 0x02], [0x3E, 0x51, 0x49, 0x45, 0x3E], [0x00, 0x42, 0x7F, 0x40, 0x00],
     [0x42, 0x61, 0x51, 0x49, 0x46], [0x21, 0x41, 0x45, 0x4B, 0x31], [0x18, 0x14, 0x12, 0x7F, 0x10],
     [0x27, 0x45, 0x45, 0x45, 0x39], [0x3C, 0x4A, 0x49, 0x49, 0x30], [0x01, 0x71, 0x09, 0x05, 0x03],
     [0x36, 0x49, 0x49, 0x49, 0x36], [0x06, 0x49, 0x49, 0x29, 0x1E], [0x00, 0x36, 0x36, 0x00, 0x00],
     [0x00, 0x56, 0x36, 0x00, 0x00], [0x08, 0x14, 0x22, 0x41, 0x00], [0x14, 0x14, 0x14, 0x14, 0x14],
     [0x00, 0x41, 0x22, 0x14, 0x08], [0x02, 0x01, 0x51, 0x09, 0x06], [0x32, 0x49, 0x79, 0x41, 0x3E],
     [0x7E, 0x11, 0x11, 0x11, 0x7E], [0x7F, 0x49, 0x49, 0x49, 0x36], [0x3E, 0x41, 0x41, 0x41, 0x22],
     [0x7F, 0x41, 0x41, 0x22, 0x1C], [0x7F, 0x49, 0x49, 0x49, 0x41], [0x7F, 0x09, 0x09, 0x09, 0x01],
     [0x3E, 0x41, 0x49, 0x49, 0x7A], [0x7F, 0x08, 0x08, 0x08, 0x7F], [0x00, 0x41, 0x7F, 0x41, 0x00],
     [0x20, 0x40, 0x41, 0x3F, 0x01], [0x7F, 0x08, 0x14, 0x22, 0x41], [0x7F, 0x40, 0x40, 0x40, 0x40],
     [0x7F, 0x02, 0x0C, 0x02, 0x7F], [0x7F, 0x04, 0x08, 0x10, 0x7F], [0x3E, 0x41, 0x41, 0x41, 0x3E],
     [0x7F, 0x09, 0x09, 0x09, 0x06], [0x3E, 0x41, 0x51, 0x21, 0x5E], [0x7F, 0x09, 0x19, 0x29, 0x46],
     [0x46, 0x49, 0x49, 0x49, 0x31], [0x01, 0x01, 0x7F, 0x01, 0x01], [0x3F, 0x40, 0x40, 0x40, 0x3F],
     [0x1F, 0x20, 0x40, 0x20, 0x1F], [0x3F, 0x40, 0x38, 0x40, 0x3F], [0x63, 0x14, 0x08, 0x14, 0x63],
     [0x07, 0x08, 0x70, 0x08, 0x07], [0x61, 0x51, 0x49, 0x45, 0x43], [0x00, 0x7F, 0x41, 0x41, 0x00],
     [0x02, 0x04, 0x08, 0x10, 0x20], [0x00, 0x41, 0x41, 0x7F, 0x00], [0x04, 0x02, 0x01, 0x02, 0x04],
     [0x40, 0x40, 0x40, 0x40, 0x40], [0x00, 0x01, 0x02, 0x04, 0x00], [0x20, 0x54, 0x54, 0x54, 0x78],
     [0x7F, 0x48, 0x44, 0x44, 0x38], [0x38, 0x44, 0x44, 0x44, 0x20], [0x38, 0x44, 0x44, 0x48, 0x7F],
     [0x38, 0x54, 0x54, 0x54, 0x18], [0x08, 0x7E, 0x09, 0x01, 0x02], [0x0C, 0x52, 0x52, 0x52, 0x3E],
     [0x7F, 0x08, 0x04, 0x04, 0x78], [0x00, 0x44, 0x7D, 0x40, 0x00], [0x20, 0x40, 0x44, 0x3D, 0x00],
     [0x7F, 0x10, 0x28, 0x44, 0x00], [0x00, 0x41, 0x7F, 0x40, 0x00], [0x7C, 0x04, 0x18, 0x04, 0x78],
     [0x7C, 0x08, 0x04, 0x04, 0x78], [0x38, 0x44, 0x44, 0x44, 0x38], [0x7C, 0x14, 0x14, 0x14, 0x08],
     [0x08, 0x14, 0x14, 0x18, 0x7C], [0x7C, 0x08, 0x04, 0x04, 0x08], [0x48, 0x54, 0x54, 0x54, 0x20],
     [0x04, 0x3F, 0x44, 0x40, 0x20], [0x3C, 0x40, 0x40, 0x20, 0x7C], [0x1C, 0x20, 0x40, 0x20, 0x1C],
     [0x3C, 0x40, 0x30, 0x40, 0x3C], [0x44, 0x28, 0x10, 0x28, 0x44], [0x0C, 0x50, 0x50, 0x50, 0x3C],
     [0x44, 0x64, 0x54, 0x4C, 0x44], [0x00, 0x08, 0x36, 0x41, 0x00], [0x00, 0x00, 0x7F, 0x00, 0x00],
     [0x00, 0x41, 0x36, 0x08, 0x00], [0x08, 0x04, 0x08, 0x10, 0x08]]"

text \<open>Characters outside 32..126 map to the glyph of the space.\<close>

definition glyph_for :: "char \<Rightarrow> u8 list" where
  "glyph_for c =
     (let c = (if (of_char c :: nat) < 32 \<or> (of_char c :: nat) > 126 then CHR '' '' else c)
      in font5x7 ! ((of_char c :: nat) - 32))"

definition linebuf_set :: "nat \<Rightarrow> nat \<Rightarrow> u16 \<Rightarrow> u16 list \<Rightarrow> u16 list" where
  "linebuf_set x y c buf =
     (if x \<ge> TFT_W \<or> y \<ge> LINE_H then buf else buf[y * TFT_W + x := c])"

definition linebuf_clear :: "u16 \<Rightarrow> u16 list" where
  "linebuf_clear bg = replicate (TFT_W * LINE_H) bg"

definition linebuf_draw_char :: "nat \<Rightarrow> nat \<Rightarrow> char \<Rightarrow> u16 \<Rightarrow> u16 \<Rightarrow> u16 list \<Rightarrow> u16 list" where
  "linebuf_draw_char x y ch fg bg buf =
     (let g = glyph_for ch;
          buf = foldl (\<lambda>buf col.
                  foldl (\<lambda>buf row.
                    linebuf_set (to_u16 (x + col)) (to_u16 (y + row))
                      (if bit (g ! col) row then fg else bg) buf)
                  buf [0..<FONT_H])
                buf [0..<FONT_W]
      in foldl (\<lambda>buf row. linebuf_set (to_u16 (x + FONT_W)) (to_u16 (y + row)) bg buf)
           buf [0..<FONT_H])"

text \<open>
  The loop of \<open>TFT_DrawTextLine_Async\<close> that draws \<open>tmp[i]\<close> for \<open>i < MAX_CHARS\<close> up to
  the terminating NUL, and leaves when the next cell starts beyond the right edge.
\<close>

fun draw_chars :: "nat \<Rightarrow> nat \<Rightarrow> string \<Rightarrow> u16 \<Rightarrow> u16 \<Rightarrow> u16 list \<Rightarrow> u16 list" where
  "draw_chars i x [] fg bg buf = buf"
| "draw_chars i x (c # cs) fg bg buf =
     (if i < MAX_CHARS then
        (let buf = linebuf_draw_char x 0 c fg bg buf;
             x = to_u16 (x + CELL_W)
         in if x \<ge> TFT_W then buf else draw_chars (i + 1) x cs fg bg buf)
      else buf)"

definition TFT_FillColor_Async :: "u16 \<Rightarrow> tft_state \<Rightarrow> tft_state" where
  "TFT_FillColor_Async color565 s =
     (let s = s\<lparr>g_fill_color := color565, g_fill_sent_pixels := 0\<rparr>;
          s = TFT_SetAddrWindow 0 0 (to_u16 (TFT_W - 1)) (to_u16 (TFT_H - 1)) s;
          s = DC_H (CS_L s)
      in s\<lparr>g_op := TFT_OP_FILL\<rparr>)"

definition TFT_DrawTextLine_Async ::
  "nat \<Rightarrow> string option \<Rightarrow> u16 \<Rightarrow> u16 \<Rightarrow> tft_state \<Rightarrow> tft_state" where
  "TFT_DrawTextLine_Async y str fg bg s =
     (if y \<ge> TFT_H then s
      else if g_op s \<noteq> TFT_OP_NONE then s
      else
        (let y = (if y > TFT_H - LINE_H then to_u16 (TFT_H - LINE_H) else y);
             buf = linebuf_clear bg;
             str = (case str of None \<Rightarrow> [] | Some t \<Rightarrow> c_str t);
             tmp = strncpy_z str MAX_CHARS;
             tmp = (if length str > MAX_CHARS \<and> MAX_CHARS \<ge> 3
                    then take (MAX_CHARS - 3) tmp @ ''...'' else tmp);
             buf = draw_chars 0 0 tmp fg bg buf;
             s = s\<lparr>g_linebuf := buf\<rparr>;
             s = TFT_SetAddrWindow 0 y (to_u16 (TFT_W - 1)) (to_u16 (y + LINE_H - 1)) s;
             s = s\<lparr>g_blit_ptr := PTR_LINEBUF, g_blit_len := TFT_W * LINE_H * 2,
                   g_blit_sent := 0\<rparr>;
             s = DC_H (CS_L s)
         in s\<lparr>g_op := TFT_OP_BLIT\<rparr>))"

text \<open>The two bytes of an RGB565 value, high byte first.\<close>

definition hi_byte :: "u16 \<Rightarrow> u8" where "hi_byte c = ucast (drop_bit 8 c)"
definition lo_byte :: "u16 \<Rightarrow> u8" where "lo_byte c = ucast (c AND 0xFF)"

definition be_bytes :: "u16 list \<Rightarrow> u8 list" where
  "be_bytes cs = concat (map (\<lambda>c. [hi_byte c, lo_byte c]) cs)"

text \<open>
  The pixels \<open>src[0], src[1], ...\<close> behind \<open>(const uint16_t *) g_blit_ptr + off\<close>. The
  pointer only ever holds the address of \<open>g_linebuf\<close>; a read through \<^verbatim>\<open>NULL\<close> or
  beyond the buffer is undefined in C and yields no pixel here.
\<close>

definition blit_src :: "tft_state \<Rightarrow> nat \<Rightarrow> u16 list" where
  "blit_src s off =
     (case g_blit_ptr s of PTR_NULL \<Rightarrow> [] | PTR_LINEBUF \<Rightarrow> drop off (g_linebuf s))"

text \<open>
  One call of \<open>TFT_Task\<close>. \<open>hal\<close> is the status that \<^verbatim>\<open>HAL_SPI_Transmit\<close> returns if
  this call reaches it; a transmit that does not return \<open>HAL_OK\<close> is taken to have put
  nothing on the bus. The scratch buffer \<open>g_txbuf\<close> is rebuilt in every call.
\<close>

definition TFT_Task :: "HAL_StatusTypeDef \<Rightarrow> tft_state \<Rightarrow> tft_state" where
  "TFT_Task hal s =
     (if g_op s = TFT_OP_NONE then s
      else if g_op s = TFT_OP_FILL then
        (let remaining = u32_sub TFT_PIXELS (g_fill_sent_pixels s) in
         if remaining = 0 then (CS_H s)\<lparr>g_op := TFT_OP_NONE\<rparr>
         else
           (let bytes = TFT_CHUNK_BYTES;
                bytes = (if odd bytes then bytes - 1 else bytes);
                max_pixels = bytes div 2;
                this_pixels = (if remaining > max_pixels then max_pixels else remaining);
                hi = hi_byte (g_fill_color s);
                lo = lo_byte (g_fill_color s);
                this_bytes = u32_mul this_pixels 2;
                txbuf = concat (replicate (this_bytes div 2) [hi, lo])
            in if hal \<noteq> HAL_OK then s
               else
                 (let s = s\<lparr>spi := spi s @ [Pix (take (to_u16 this_bytes) txbuf)]\<rparr>;
                      s = s\<lparr>g_fill_sent_pixels := u32_add (g_fill_sent_pixels s) this_pixels\<rparr>
                  in if g_fill_sent_pixels s \<ge> TFT_PIXELS
                     then (CS_H s)\<lparr>g_op := TFT_OP_NONE\<rparr> else s)))
      else
        (let remaining = u32_sub (g_blit_len s) (g_blit_sent s) in
         if remaining = 0 then (CS_H s)\<lparr>g_op := TFT_OP_NONE\<rparr>
         else
           (let max_pixels = TFT_CHUNK_BYTES div 2;
                this_pixels = remaining div 2;
                this_pixels = (if this_pixels > max_pixels then max_pixels else this_pixels);
                src = blit_src s (g_blit_sent s div 2);
                txbuf = be_bytes (take this_pixels src);
                this_bytes = u32_mul this_pixels 2
            in if hal \<noteq> HAL_OK then s
               else
                 (let s = s\<lparr>spi := spi s @ [Pix (take (to_u16 this_bytes) txbuf)]\<rparr>;
                      s = s\<lparr>g_blit_sent := u32_add (g_blit_sent s) this_bytes\<rparr>
                  in if g_blit_sent s \<ge> g_blit_len s
                     then (CS_H s)\<lparr>g_op := TFT_OP_NONE\<rparr> else s))))"

definition TFT_IsBusy :: "tft_state \<Rightarrow> bool" where
  "TFT_IsBusy s = (g_op s \<noteq> TFT_OP_NONE)"

text \<open>
  \<open>TFT_Init\<close>: hardware reset, SLPOUT, COLMOD (RGB565), MADCTL, DISPON; the engine is
  idle afterwards. The delays are not modelled.
\<close>

definition TFT_Init :: "tft_state \<Rightarrow> tft_state" where
  "TFT_Init s =
     (let s = RST_H (RST_L s);
          s = tft_cmd 0x11 s;
          s = tft_data8 0x05 (tft_cmd 0x3A s);
          s = tft_data8 0x60 (tft_cmd 0x36 s);
          s = tft_cmd 0x29 s
      in s\<lparr>g_op := TFT_OP_NONE\<rparr>)"

text \<open>The pixel bytes streamed so far, and the number of RAMWR commands issued.\<close>

fun pix_bytes :: "spi_ev list \<Rightarrow> u8 list" where
  "pix_bytes [] = []"
| "pix_bytes (Pix bs # es) = bs @ pix_bytes es"
| "pix_bytes (e # es) = pix_bytes es"

definition ramwr_count :: "spi_ev list \<Rightarrow> nat" where
  "ramwr_count es = length (filter (\<lambda>e. e = Cmd 0x2C) es)"

section \<open>UI line manager (app_helpers.c)\<close>

definition UI_LINE_H :: nat where "UI_LINE_H = 8"
definition UI_MAX_LINES :: nat where "UI_MAX_LINES = 16"
definition UI_TEXT_MAX :: nat where "UI_TEXT_MAX = 128"

text \<open>
  \<open>ui_line_t\<close>: the flags \<open>used\<close> and \<open>dirty\<close> only ever hold 0 or 1; \<open>text\<close> and
  \<open>last\<close> are buffers of \<open>UI_TEXT_MAX\<close> bytes holding C strings.
\<close>

record ui_line_t =
  ln_used :: bool
  ln_dirty :: bool
  ln_fg :: u16
  ln_bg :: u16
  ln_text :: string
  ln_last :: string

text \<open>An entry after \<^verbatim>\<open>memset(.., 0, ..)\<close>.\<close>

definition ui_line_zero :: ui_line_t where
  "ui_line_zero = \<lparr> ln_used = False, ln_dirty = False, ln_fg = 0, ln_bg = 0,
     ln_text = [], ln_last = [] \<rparr>"

record ui_state =
  s_ui :: "ui_line_t list"
  s_ui_rr :: nat
  s_last_ui :: u32

text \<open>The zero-initialised statics of the line manager.\<close>

definition ui_static :: ui_state where
  "ui_static = \<lparr> s_ui = replicate UI_MAX_LINES ui_line_zero, s_ui_rr = 0, s_last_ui = 0 \<rparr>"

definition App_UI_ClearAll :: "ui_state \<Rightarrow> ui_state" where
  "App_UI_ClearAll u = u\<lparr>s_ui := replicate UI_MAX_LINES ui_line_zero, s_ui_rr := 0\<rparr>"

definition App_UI_ClearLine :: "nat \<Rightarrow> ui_state \<Rightarrow> ui_state" where
  "App_UI_ClearLine idx u =
     (if idx \<ge> UI_MAX_LINES then u else u\<lparr>s_ui := (s_ui u)[idx := ui_line_zero]\<rparr>)"

definition App_UI_SetLine :: "nat \<Rightarrow> u16 \<Rightarrow> u16 \<Rightarrow> string option \<Rightarrow> ui_state \<Rightarrow> ui_state" where
  "App_UI_SetLine idx fg bg str u =
     (if idx \<ge> UI_MAX_LINES then u
      else
        (let L = s_ui u ! idx;
             L = L\<lparr>ln_used := True, ln_fg := fg, ln_bg := bg\<rparr>;
             str = (case str of None \<Rightarrow> [] | Some t \<Rightarrow> c_str t);
             L = (if \<not> strncmp_eq (ln_text L) str UI_TEXT_MAX
                  then L\<lparr>ln_text := strncpy_z str (UI_TEXT_MAX - 1), ln_dirty := True\<rparr>
                  else L)
         in u\<lparr>s_ui := (s_ui u)[idx := L]\<rparr>))"

text \<open>\<open>ui_active_count\<close>: the index of the last used entry plus one, 0 when none is used.\<close>

definition ui_active_count :: "ui_state \<Rightarrow> nat" where
  "ui_active_count u =
     (let last_used = foldl (\<lambda>l i. if ln_used (s_ui u ! i) then int i else l) (- 1)
                        [0..<UI_MAX_LINES]
      in if last_used < 0 then 0 else nat (last_used + 1))"

text \<open>
  The loop of \<open>ui_pump_once\<close> from position \<open>k\<close> on, over \<open>n\<close> active lines: the first
  used line that is dirty or whose text differs from the last rendered text is handed to
  the render engine; when the loop runs out, the round-robin cursor restarts at 0.
\<close>

function ui_pump_scan :: "nat \<Rightarrow> nat \<Rightarrow> ui_state \<Rightarrow> tft_state \<Rightarrow> ui_state \<times> tft_state" where
  "ui_pump_scan k n u t =
     (if k < n then
        (let idx = ((s_ui_rr u + k) mod n) mod 256;
             L = s_ui u ! idx
         in if \<not> ln_used L then ui_pump_scan (k + 1) n u t
            else if ln_dirty L \<or> \<not> strcmp_eq (ln_text L) (ln_last L) then
              (let y = to_u16 (idx * UI_LINE_H);
                   t = TFT_DrawTextLine_Async y (Some (ln_text L)) (ln_fg L) (ln_bg L) t;
                   L = L\<lparr>ln_last := strncpy_z (ln_text L) (UI_TEXT_MAX - 1),
                         ln_dirty := False\<rparr>
               in (u\<lparr>s_ui := (s_ui u)[idx := L], s_ui_rr := ((idx + 1) mod n) mod 256\<rparr>, t))
            else ui_pump_scan (k + 1) n u t)
      else (u\<lparr>s_ui_rr := 0\<rparr>, t))"
  by pat_completeness auto
termination
  by (relation "measure (\<lambda>(k, n, u, t). n - k)") auto

declare ui_pump_scan.simps [simp del]

definition ui_pump_once :: "ui_state \<Rightarrow> tft_state \<Rightarrow> ui_state \<times> tft_state" where
  "ui_pump_once u t =
     (if TFT_IsBusy t then (u, t)
      else (let n = ui_active_count u in
            if n = 0 then (u, t) else ui_pump_scan 0 n u t))"

text \<open>
  Sequences of calls made by the main loop on the line manager and the engine, as data:
  the four operations of the line manager and one call of \<open>TFT_Task\<close>.
\<close>

datatype ui_op =
    SetLine nat u16 u16 "string option"
  | PumpOnce
  | ClearLine nat
  | ClearAll
  | EngineTask HAL_StatusTypeDef

fun ui_step :: "ui_state \<times> tft_state \<Rightarrow> ui_op \<Rightarrow> ui_state \<times> tft_state" where
  "ui_step (u, t) (SetLine idx fg bg str) = (App_UI_SetLine idx fg bg str u, t)"
| "ui_step (u, t) PumpOnce = ui_pump_once u t"
| "ui_step (u, t) (ClearLine idx) = (App_UI_ClearLine idx u, t)"
| "ui_step (u, t) ClearAll = (App_UI_ClearAll u, t)"
| "ui_step (u, t) (EngineTask hal) = (u, TFT_Task hal t)"

definition ui_run :: "ui_state \<times> tft_state \<Rightarrow> ui_op list \<Rightarrow> ui_state \<times> tft_state" where
  "ui_run st ops = foldl ui_step st ops"

section \<open>Sensor poll service (i2c.c)\<close>

text \<open>
  The error flags of the vendor HAL (\<^verbatim>\<open>HAL_I2C_ERROR_NONE\<close>, \<^verbatim>\<open>HAL_I2C_ERROR_AF\<close>, ...)
  are declared outside the repository; \<open>I2C_ErrStr\<close> takes them as a parameter.
\<close>

record hal_i2c_errors =
  HAL_I2C_ERROR_NONE :: u32
  HAL_I2C_ERROR_AF :: u32
  HAL_I2C_ERROR_TIMEOUT :: u32
  HAL_I2C_ERROR_BERR :: u32
  HAL_I2C_ERROR_ARLO :: u32
  HAL_I2C_ERROR_OVR :: u32
  HAL_I2C_ERROR_DMA :: u32

definition I2C_ErrStr :: "hal_i2c_errors \<Rightarrow> u32 \<Rightarrow> string" where
  "I2C_ErrStr H e =
     (if e = HAL_I2C_ERROR_NONE H then ''NONE''
      else if e AND HAL_I2C_ERROR_AF H \<noteq> 0 then ''NACK''
      else if e AND HAL_I2C_ERROR_TIMEOUT H \<noteq> 0 then ''TIMEOUT''
      else if e AND HAL_I2C_ERROR_BERR H \<noteq> 0 then ''BUS''
      else if e AND HAL_I2C_ERROR_ARLO H \<noteq> 0 then ''ARLO''
      else if e AND HAL_I2C_ERROR_OVR H \<noteq> 0 then ''OVR''
      else if e AND HAL_I2C_ERROR_DMA H \<noteq> 0 then ''DMA''
      else ''UNKNOWN'')"

text \<open>
  What one call of \<^verbatim>\<open>HAL_I2C_Master_Receive\<close> (2 bytes, 200 ms) does: the status it
  returns, the two bytes it leaves in the buffer, and the error code that
  \<^verbatim>\<open>HAL_I2C_GetError\<close> reports afterwards.
\<close>

record i2c_rx =
  rx_status :: HAL_StatusTypeDef
  rx_buf0 :: u8
  rx_buf1 :: u8
  rx_error :: u32

text \<open>
  The inputs of one poll: the outcome of the first read, the outcome of the retry (used
  only when the first read fails), and the level of SDA seen by the \<open>i\<close>-th check of the
  recovery loop (\<open>True\<close> is high).
\<close>

record i2c_env =
  rx_first :: i2c_rx
  rx_retry :: i2c_rx
  sda_level :: "nat \<Rightarrow> bool"

text \<open>
  \<open>g_i2c_temp\<close> is a \<^verbatim>\<open>float\<close> that only ever holds 0 or a converted \<^verbatim>\<open>int16_t\<close>,
  which a float represents exactly; it is kept as an integer. \<open>bus_recoveries\<close> counts the
  executions of \<open>I2C1_BusRecover\<close> and \<open>scl_pulses\<close> the clock pulses they generated.
\<close>

record i2c_state =
  g_i2c_ok :: bool
  g_i2c_temp :: int
  g_i2c_last_err :: string
  nextPollMs :: u32
  bus_recoveries :: nat
  scl_pulses :: nat

definition i2c_static :: i2c_state where
  "i2c_static = \<lparr> g_i2c_ok = False, g_i2c_temp = 0, g_i2c_last_err = ''NONE'',
     nextPollMs = 0, bus_recoveries = 0, scl_pulses = 0 \<rparr>"

text \<open>
  \<open>I2C1_BusRecover\<close>: up to 9 SCL pulses, stopping at the first check that sees SDA
  high; then the STOP condition and the re-initialisation of the peripheral, which leave
  no trace in the state of this module.
\<close>

definition I2C1_BusRecover :: "(nat \<Rightarrow> bool) \<Rightarrow> i2c_state \<Rightarrow> i2c_state" where
  "I2C1_BusRecover sda s =
     s\<lparr>scl_pulses := scl_pulses s + length (takeWhile (\<lambda>i. \<not> sda i) [0..<9]),
       bus_recoveries := bus_recoveries s + 1\<rparr>"

text \<open>The \<^verbatim>\<open>int16_t\<close> read from two bytes, least significant byte first.\<close>

definition le_int16 :: "u8 \<Rightarrow> u8 \<Rightarrow> int" where
  "le_int16 b0 b1 = sint ((ucast b0 OR push_bit 8 (ucast b1)) :: 16 word)"

text \<open>
  \<open>I2C_ReadTempFromESP32\<close> with a non-null output pointer: the status, and the value of
  \<open>*temp_celsius_out\<close> afterwards (\<open>out\<close> is its value before).
\<close>

definition I2C_ReadTempFromESP32 :: "i2c_rx \<Rightarrow> int \<Rightarrow> HAL_StatusTypeDef \<times> int" where
  "I2C_ReadTempFromESP32 rx out =
     (if rx_status rx \<noteq> HAL_OK then (rx_status rx, out)
      else (HAL_OK, le_int16 (rx_buf0 rx) (rx_buf1 rx)))"

text \<open>The debug \<^verbatim>\<open>printf\<close> of \<open>I2C_ReadTemp_Fixed\<close> is not modelled.\<close>

definition I2C_ReadTemp_Fixed ::
  "hal_i2c_errors \<Rightarrow> i2c_env \<Rightarrow> int \<Rightarrow> i2c_state \<Rightarrow> HAL_StatusTypeDef \<times> int \<times> i2c_state" where
  "I2C_ReadTemp_Fixed H E out s =
     (case I2C_ReadTempFromESP32 (rx_first E) out of (st, out) \<Rightarrow>
        if st = HAL_OK then (HAL_OK, out, s\<lparr>g_i2c_last_err := ''NONE''\<rparr>)
        else
          (let e = rx_error (rx_first E);
               s = s\<lparr>g_i2c_last_err := I2C_ErrStr H e\<rparr>;
               s = I2C1_BusRecover (sda_level E) s
           in case I2C_ReadTempFromESP32 (rx_retry E) out of (st, out) \<Rightarrow>
                if st = HAL_OK then (HAL_OK, out, s\<lparr>g_i2c_last_err := ''NONE''\<rparr>)
                else
                  (let e = rx_error (rx_retry E)
                   in (st, out, s\<lparr>g_i2c_last_err := I2C_ErrStr H e\<rparr>))))"

definition POLL_MS :: u32 where "POLL_MS = 500"

definition App_I2C_Service :: "hal_i2c_errors \<Rightarrow> i2c_env \<Rightarrow> u32 \<Rightarrow> i2c_state \<Rightarrow> i2c_state" where
  "App_I2C_Service H E now s =
     (if sint (now - nextPollMs s) < 0 then s
      else
        (let s = s\<lparr>nextPollMs := now + POLL_MS\<rparr>
         in case I2C_ReadTemp_Fixed H E 0 s of (st, t, s) \<Rightarrow>
              if st = HAL_OK then s\<lparr>g_i2c_temp := t, g_i2c_ok := True\<rparr>
              else s\<lparr>g_i2c_ok := False\<rparr>))"

definition App_I2C_IsOk :: "i2c_state \<Rightarrow> bool" where
  "App_I2C_IsOk s = g_i2c_ok s"

definition App_I2C_GetTempInt :: "i2c_state \<Rightarrow> int" where
  "App_I2C_GetTempInt s = g_i2c_temp s"

definition App_I2C_GetLastErr :: "i2c_state \<Rightarrow> string" where
  "App_I2C_GetLastErr s = g_i2c_last_err s"

section \<open>Telemetry client (app_net.c)\<close>

record AppTelemetry =
  now_ms :: u32
  i2c_temp_c :: "32 word"
  can_0x101 :: string
  can_0x120 :: string

subsection \<open>The wire record\<close>

text \<open>
  The conversions \<^verbatim>\<open>%lu\<close> and \<^verbatim>\<open>%ld\<close> of \<open>snprintf\<close> (\<^verbatim>\<open>long\<close> has 32 bits on
  the target): decimal digits, most significant first, with a minus sign for a negative
  value.
\<close>

definition digit_char :: "nat \<Rightarrow> char" where
  "digit_char d = char_of (48 + d)"

function dec_nat :: "nat \<Rightarrow> string" where
  "dec_nat n = (if n < 10 then [digit_char n] else dec_nat (n div 10) @ [digit_char (n mod 10)])"
  by pat_completeness auto
termination
  by (relation "measure id") auto

declare dec_nat.simps [simp del]

definition dec_int :: "int \<Rightarrow> string" where
  "dec_int i = (if i < 0 then CHR ''-'' # dec_nat (nat (- i)) else dec_nat (nat i))"

text \<open>
  The text produced by the format string shared by \<open>APP_NET_SendUDP\<close> and
  \<open>APP_NET_SendTCP\<close>, before \<open>snprintf\<close> cuts it to the buffer.
\<close>

definition telemetry_fmt :: "AppTelemetry \<Rightarrow> string" where
  \<open>telemetry_fmt t =
     ''{"ts":'' @ dec_nat (unat (now_ms t)) @
     '',"i2c":'' @ dec_int (sint (i2c_temp_c t)) @
     '',"can101":"'' @ c_str (can_0x101 t) @
     ''","can120":"'' @ c_str (can_0x120 t) @
     ''"}'' @ [CHR 0x0A]\<close>

text \<open>
  \<^verbatim>\<open>snprintf(buf, size, ...)\<close>: the string left in the buffer and the returned length,
  which is that of the whole text. The negative return of an output error does not arise
  for a format of \<^verbatim>\<open>%lu\<close>, \<^verbatim>\<open>%ld\<close> and \<^verbatim>\<open>%s\<close> only.
\<close>

definition snprintf :: "nat \<Rightarrow> string \<Rightarrow> string \<times> int" where
  "snprintf sz str = (take (sz - 1) str, int (length str))"

subsection \<open>State and the calls into the network stack\<close>

datatype tcp_state_t = TCP_DOWN | TCP_CONNECTING | TCP_UP

text \<open>
  The result type of lwIP, of which the client only tests \<^verbatim>\<open>== ERR_OK\<close>, and the calls
  the client makes into the stack, in order. The registration of callbacks is not
  recorded.
\<close>

datatype err_t = ERR_OK | ERR_FAILED

datatype lwip_call =
    Udp_new
  | Udp_sendto string u32 u16
  | Tcp_new
  | Tcp_connect u32 u16
  | Tcp_write string
  | Tcp_output
  | Tcp_abort
  | Tcp_close
  | Lwip_process

text \<open>Control blocks are named by numbers; \<open>None\<close> is the null pointer.\<close>

record net_state =
  g_udp_last :: string
  g_tcp_last :: string
  g_remote_ip :: u32
  g_udp_port :: u16
  g_tcp_port :: u16
  g_udp :: "nat option"
  g_tcp :: "nat option"
  g_tcp_state :: tcp_state_t
  g_next_tcp_reconnect_ms :: u32
  g_tcp_txbuf :: string
  g_tcp_txlen :: nat
  lwip_tick :: u32
  send_tick :: u32
  lwip :: "lwip_call list"

definition APP_UDP_PORT :: u16 where "APP_UDP_PORT = 5005"
definition APP_TCP_PORT :: u16 where "APP_TCP_PORT = 6006"

definition net_static :: net_state where
  "net_static = \<lparr> g_udp_last = ''-'', g_tcp_last = ''-'', g_remote_ip = 0,
     g_udp_port = APP_UDP_PORT, g_tcp_port = APP_TCP_PORT, g_udp = None, g_tcp = None,
     g_tcp_state = TCP_DOWN, g_next_tcp_reconnect_ms = 0, g_tcp_txbuf = [], g_tcp_txlen = 0,
     lwip_tick = 0, send_tick = 0, lwip = [] \<rparr>"

text \<open>
  What the stack answers during one call of the client: the control blocks handed out
  by \<^verbatim>\<open>udp_new_ip_type\<close> and \<^verbatim>\<open>tcp_new_ip_type\<close>, whether \<^verbatim>\<open>pbuf_alloc\<close> succeeds,
  and the results of \<^verbatim>\<open>udp_sendto\<close>, \<^verbatim>\<open>tcp_connect\<close>, \<^verbatim>\<open>tcp_write\<close> and
  \<^verbatim>\<open>tcp_output\<close>.
\<close>

record lwip_env =
  udp_new_pcb :: "nat option"
  pbuf_alloc_ok :: bool
  udp_sendto_err :: err_t
  tcp_new_pcb :: "nat option"
  tcp_connect_err :: err_t
  tcp_write_err :: err_t
  tcp_output_err :: err_t

subsection \<open>UDP\<close>

definition udp_init_once :: "lwip_env \<Rightarrow> net_state \<Rightarrow> net_state" where
  "udp_init_once E s =
     (if g_udp s \<noteq> None then s
      else s\<lparr>g_udp := udp_new_pcb E, lwip := lwip s @ [Udp_new]\<rparr>)"

definition APP_NET_SendUDP :: "lwip_env \<Rightarrow> AppTelemetry option \<Rightarrow> net_state \<Rightarrow> bool \<times> net_state" where
  "APP_NET_SendUDP E t s =
     (case t of None \<Rightarrow> (False, s) | Some t \<Rightarrow>
        (let s = (if g_udp s = None then udp_init_once E s else s) in
         if g_udp s = None then (False, s)
         else
           (case snprintf 256 (telemetry_fmt t) of (msg, n) \<Rightarrow>
              if n \<le> 0 then (False, s)
              else
                (let n = (if n \<ge> 256 then 256 - 1 else n) in
                 if \<not> pbuf_alloc_ok E then (False, s)
                 else
                   (let s = s\<lparr>lwip := lwip s @
                              [Udp_sendto (take (nat n) msg) (g_remote_ip s) (g_udp_port s)]\<rparr>
                    in (udp_sendto_err E = ERR_OK, s))))))"

subsection \<open>TCP client\<close>

definition app_tcp_close :: "net_state \<Rightarrow> net_state" where
  "app_tcp_close s =
     (let s = (if g_tcp s \<noteq> None then s\<lparr>lwip := lwip s @ [Tcp_close], g_tcp := None\<rparr> else s)
      in s\<lparr>g_tcp_state := TCP_DOWN, g_tcp_txlen := 0\<rparr>)"

definition tcp_force_abort :: "net_state \<Rightarrow> net_state" where
  "tcp_force_abort s =
     (let s = (if g_tcp s \<noteq> None then s\<lparr>lwip := lwip s @ [Tcp_abort], g_tcp := None\<rparr> else s)
      in s\<lparr>g_tcp_state := TCP_DOWN, g_tcp_txlen := 0\<rparr>)"

definition on_tcp_sent :: "net_state \<Rightarrow> err_t \<times> net_state" where
  "on_tcp_sent s = (ERR_OK, s\<lparr>g_tcp_txlen := 0\<rparr>)"

definition on_tcp_err :: "net_state \<Rightarrow> net_state" where
  "on_tcp_err s = s\<lparr>g_tcp := None, g_tcp_state := TCP_DOWN, g_tcp_txlen := 0\<rparr>"

text \<open>\<open>on_tcp_recv\<close>: \<open>p\<close> tells whether the packet buffer is non-null.\<close>

definition on_tcp_recv :: "bool \<Rightarrow> net_state \<Rightarrow> err_t \<times> net_state" where
  "on_tcp_recv p s = (if \<not> p then (ERR_OK, app_tcp_close s) else (ERR_OK, s))"

definition on_tcp_connected :: "err_t \<Rightarrow> net_state \<Rightarrow> err_t \<times> net_state" where
  "on_tcp_connected err s =
     (if err \<noteq> ERR_OK then (err, tcp_force_abort s)
      else (ERR_OK, s\<lparr>g_tcp_state := TCP_UP\<rparr>))"

definition tcp_start_connect :: "lwip_env \<Rightarrow> u32 \<Rightarrow> net_state \<Rightarrow> net_state" where
  "tcp_start_connect E now s =
     (if g_tcp_state s = TCP_UP \<or> g_tcp_state s = TCP_CONNECTING then s
      else
        (let s = s\<lparr>g_tcp := tcp_new_pcb E, lwip := lwip s @ [Tcp_new]\<rparr> in
         if g_tcp s = None
         then s\<lparr>g_tcp_state := TCP_DOWN, g_next_tcp_reconnect_ms := now + 2000\<rparr>
         else
           (let s = s\<lparr>g_tcp_state := TCP_CONNECTING\<rparr>;
                s = s\<lparr>lwip := lwip s @ [Tcp_connect (g_remote_ip s) (g_tcp_port s)]\<rparr>
            in if tcp_connect_err E \<noteq> ERR_OK
               then (tcp_force_abort s)\<lparr>g_next_tcp_reconnect_ms := now + 2000\<rparr>
               else s)))"

definition APP_NET_TcpIsConnected :: "net_state \<Rightarrow> bool" where
  "APP_NET_TcpIsConnected s = (g_tcp_state s = TCP_UP \<and> g_tcp s \<noteq> None)"

definition APP_NET_SendTCP :: "lwip_env \<Rightarrow> AppTelemetry option \<Rightarrow> net_state \<Rightarrow> bool \<times> net_state" where
  "APP_NET_SendTCP E t s =
     (case t of None \<Rightarrow> (False, s) | Some t \<Rightarrow>
        if \<not> APP_NET_TcpIsConnected s then (False, s)
        else if g_tcp_txlen s \<noteq> 0 then (False, s)
        else
          (case snprintf 256 (telemetry_fmt t) of (buf, n) \<Rightarrow>
             (let s = s\<lparr>g_tcp_txbuf := buf\<rparr> in
              if n \<le> 0 then (False, s)
              else
                (let n = (if n \<ge> 256 then 256 - 1 else n);
                     s = s\<lparr>g_tcp_txlen := nat n mod 2 ^ 16\<rparr>;
                     s = s\<lparr>lwip := lwip s @ [Tcp_write (take (g_tcp_txlen s) (g_tcp_txbuf s))]\<rparr>
                 in if tcp_write_err E \<noteq> ERR_OK then (False, s\<lparr>g_tcp_txlen := 0\<rparr>)
                    else
                      (let s = s\<lparr>lwip := lwip s @ [Tcp_output]\<rparr>
                       in if tcp_output_err E \<noteq> ERR_OK then (False, s\<lparr>g_tcp_txlen := 0\<rparr>)
                          else (True, s))))))"

subsection \<open>Initialisation, reconfiguration and polling\<close>

text \<open>
  \<open>parse_ip\<close> calls \<^verbatim>\<open>ipaddr_aton\<close> of lwIP; its result for the given string is the
  parameter \<open>ip\<close> (\<open>None\<close> when the string is not an address).
\<close>

definition APP_NET_Init :: "lwip_env \<Rightarrow> u32 option \<Rightarrow> net_state \<Rightarrow> net_state" where
  "APP_NET_Init E ip s =
     (let s = (case ip of None \<Rightarrow> s | Some a \<Rightarrow> s\<lparr>g_remote_ip := a\<rparr>);
          s = udp_init_once E s
      in s\<lparr>g_tcp_state := TCP_DOWN, g_next_tcp_reconnect_ms := 0\<rparr>)"

definition APP_NET_SetRemote ::
  "u32 option \<Rightarrow> u16 \<Rightarrow> u16 \<Rightarrow> net_state \<Rightarrow> bool \<times> net_state" where
  "APP_NET_SetRemote ip udp_port tcp_port s =
     (case ip of None \<Rightarrow> (False, s)
      | Some a \<Rightarrow>
          (True, app_tcp_close (s\<lparr>g_remote_ip := a, g_udp_port := udp_port,
                                   g_tcp_port := tcp_port\<rparr>)))"

text \<open>
  The callbacks that the stack invokes while it is pumped (\<^verbatim>\<open>MX_LWIP_Process\<close>,
  \<^verbatim>\<open>ethernetif_input\<close>, \<^verbatim>\<open>sys_check_timeouts\<close>), as events handed to the handlers of
  the client.
\<close>

datatype tcp_event = Ev_connected err_t | Ev_sent | Ev_err | Ev_recv bool

fun deliver :: "net_state \<Rightarrow> tcp_event \<Rightarrow> net_state" where
  "deliver s (Ev_connected err) = snd (on_tcp_connected err s)"
| "deliver s Ev_sent = snd (on_tcp_sent s)"
| "deliver s Ev_err = on_tcp_err s"
| "deliver s (Ev_recv p) = snd (on_tcp_recv p s)"

definition APP_NET_Poll :: "lwip_env \<Rightarrow> tcp_event list \<Rightarrow> u32 \<Rightarrow> net_state \<Rightarrow> net_state" where
  "APP_NET_Poll E evs now s =
     (let s = s\<lparr>lwip := lwip s @ [Lwip_process]\<rparr>;
          s = foldl deliver s evs
      in if \<not> APP_NET_TcpIsConnected s then
           (if g_next_tcp_reconnect_ms s = 0 \<or> \<not> sint (now - g_next_tcp_reconnect_ms s) < 0
            then (tcp_start_connect E now s)\<lparr>g_next_tcp_reconnect_ms := now + 2000\<rparr>
            else s)
         else s)"

text \<open>
  \<open>APP_NET_Service\<close>: \<open>temp\<close> is \<open>App_I2C_GetTempInt()\<close>, \<open>c101\<close> and \<open>c120\<close> are the texts
  returned by the bus decoder. The sample is built on the stack with both text fields
  cut to their 64 bytes.
\<close>

definition APP_NET_Service ::
  "lwip_env \<Rightarrow> tcp_event list \<Rightarrow> int \<Rightarrow> string \<Rightarrow> string \<Rightarrow> u32 \<Rightarrow> net_state \<Rightarrow> net_state" where
  \<open>APP_NET_Service E evs temp c101 c120 now s =
     (let s = (if \<not> sint (now - lwip_tick s) < 0
               then (APP_NET_Poll E evs now s)\<lparr>lwip_tick := now + 10\<rparr> else s)
      in if \<not> sint (now - send_tick s) < 0 then
           (let t = \<lparr> now_ms = now, i2c_temp_c = word_of_int temp,
                      can_0x101 = fst (snprintf 64 (c_str c101)),
                      can_0x120 = fst (snprintf 64 (c_str c120)) \<rparr>;
                s = s\<lparr>g_udp_last := fst (snprintf 64
                        (''ts='' @ dec_nat (unat (now_ms t)) @ '' i2c='' @
                         dec_int (sint (i2c_temp_c t))))\<rparr>;
                s = s\<lparr>g_tcp_last := fst (snprintf 64 (''C101='' @ take 58 (can_0x101 t)))\<rparr>;
                s = snd (APP_NET_SendUDP E (Some t) s);
                s = snd (APP_NET_SendTCP E (Some t) s)
            in s\<lparr>send_tick := now + 1000\<rparr>)
         else s)\<close>

section \<open>Decoding a wire record\<close>

text \<open>
  Modelled from the spec: the decoder of the telemetry wire record, which runs on the
  receiving host and is not part of the repository. It reads the timestamp (integer
  milliseconds) as the decimal number that follows \<^verbatim>\<open>{"ts":\<close> and the sensor reading
  (signed integer) as the decimal number, with an optional minus sign, that follows
  \<^verbatim>\<open>,"i2c":\<close>; a line of another shape is rejected.
\<close>

definition is_digit :: "char \<Rightarrow> bool" where
  "is_digit c = (48 \<le> (of_char c :: nat) \<and> (of_char c :: nat) \<le> 57)"

definition digit_val :: "char \<Rightarrow> nat" where
  "digit_val c = of_char c - 48"

definition parse_dec :: "string \<Rightarrow> nat" where
  "parse_dec ds = foldl (\<lambda>a c. 10 * a + digit_val c) 0 ds"

fun strip_prefix :: "string \<Rightarrow> string \<Rightarrow> string option" where
  "strip_prefix [] s = Some s"
| "strip_prefix (p # ps) [] = None"
| "strip_prefix (p # ps) (c # cs) = (if p = c then strip_prefix ps cs else None)"

text \<open>
  Modelled from the spec: \<open>decode_record\<close> is the receiver's reading of one line, as the
  spec describes the record; the result is the timestamp and the sensor reading, or \<open>None\<close>
  for a line of another shape.
\<close>

definition decode_record :: "string \<Rightarrow> (nat \<times> int) option" where
  \<open>decode_record line =
     (case strip_prefix ''{"ts":'' line of
        None \<Rightarrow> None
      | Some r \<Rightarrow>
          (let ds = takeWhile is_digit r; r = dropWhile is_digit r in
           if ds = [] then None
           else
             (case strip_prefix '',"i2c":'' r of
                None \<Rightarrow> None
              | Some r \<Rightarrow>
                  (let neg = (r \<noteq> [] \<and> hd r = CHR ''-'');
                       r = (if neg then tl r else r);
                       es = takeWhile is_digit r
                   in if es = [] then None
                      else Some (parse_dec ds,
                                 if neg then - int (parse_dec es) else int (parse_dec es))))))\<close>

text \<open>The record that both senders hand to the stack: the buffer after \<open>snprintf\<close>.\<close>

definition wire_record :: "AppTelemetry \<Rightarrow> string" where
  "wire_record t = fst (snprintf 256 (telemetry_fmt t))"

section \<open>Scheduler (main.c)\<close>

subsection \<open>Console output queue (usbd_cdc_if.c)\<close>

text \<open>
  The read and write positions of the console ring and the pending-prompt flag, which
  only ever holds 0 or 1.
\<close>

record cons_state =
  g_cons_r :: nat
  g_cons_w :: nat
  g_prompt_pending :: bool

definition cons_static :: cons_state where
  "cons_static = \<lparr> g_cons_r = 0, g_cons_w = 0, g_prompt_pending = False \<rparr>"

definition CDC_ConsoleTxIsEmpty :: "cons_state \<Rightarrow> bool" where
  "CDC_ConsoleTxIsEmpty c = (g_cons_r c = g_cons_w c \<and> \<not> g_prompt_pending c)"

definition App_USBLog_IsEmpty :: "cons_state \<Rightarrow> bool" where
  "App_USBLog_IsEmpty c = CDC_ConsoleTxIsEmpty c"

subsection \<open>Service wrappers (app_helpers.c)\<close>

text \<open>\<open>App_CAN_Service\<close>: every 50 ms it calls \<open>CAN1_Service\<close>, whose body is empty.\<close>

definition App_CAN_Service :: "u32 \<Rightarrow> u32 \<Rightarrow> u32" where
  "App_CAN_Service now s_last_can = (if unat (now - s_last_can) < 50 then s_last_can else now)"

text \<open>
  \<open>App_TFT_Service\<close>: the feeds stage the desired lines, then at most every 50 ms one
  pump. The feeds (\<open>App_DefaultFeedUI\<close>, \<open>App_UserFeedUI\<close>) only call \<open>App_UI_SetLine\<close>,
  directly or through \<open>App_UI_SetLineF\<close>; \<open>feed\<close> is the list of these calls with the
  texts already formatted.
\<close>

definition App_TFT_Service ::
  "(nat \<times> u16 \<times> u16 \<times> string) list \<Rightarrow> u32 \<Rightarrow> ui_state \<Rightarrow> tft_state \<Rightarrow> ui_state \<times> tft_state" where
  "App_TFT_Service feed now u t =
     (let u = foldl (\<lambda>u (idx, fg, bg, str). App_UI_SetLine idx fg bg (Some str) u) u feed
      in if unat (now - s_last_ui u) < 50 then (u, t)
         else ui_pump_once (u\<lparr>s_last_ui := now\<rparr>) t)"

subsection \<open>One iteration of the main loop\<close>

text \<open>The calls that the loop body makes, recorded in the order in which they happen.\<close>

datatype step =
    Call_APP_NET_Service
  | Call_App_USB_Service
  | Call_App_CAN_Service
  | Call_App_I2C_Service
  | Call_TFT_Task
  | Call_App_TFT_Service
  | Call_App_CLI_Service
  | Call_App_Tick
  | Call_WFI

record sys_state =
  tft :: tft_state
  ui :: ui_state
  i2c :: i2c_state
  net :: net_state
  cons :: cons_state
  s_last_can :: u32
  trace :: "step list"

text \<open>
  What one iteration takes from outside: the tick read at its start, the answers of the
  network stack and the bus decoder, the outcomes of the sensor reads, the status of the
  SPI transmit and the lines staged by the UI feed. The bodies of \<open>App_USB_Service\<close>,
  \<open>App_CLI_Service\<close> and \<open>App_Tick\<close> (console transport, command line, periodic log) are
  not modelled: they act on the console queue only, each in a way given by the
  environment.
\<close>

record loop_env =
  tick :: u32
  stack :: lwip_env
  stack_events :: "tcp_event list"
  can_text_0x101 :: string
  can_text_0x120 :: string
  usb_service :: "cons_state \<Rightarrow> cons_state"
  i2c_flags :: hal_i2c_errors
  i2c_in :: i2c_env
  spi_status :: HAL_StatusTypeDef
  ui_feed :: "(nat \<times> u16 \<times> u16 \<times> string) list"
  cli_service :: "cons_state \<Rightarrow> cons_state"
  tick_service :: "cons_state \<Rightarrow> cons_state"

definition called :: "step \<Rightarrow> sys_state \<Rightarrow> sys_state" where
  "called c s = s\<lparr>trace := trace s @ [c]\<rparr>"

text \<open>The statements of the loop body, one definition for each call.\<close>

definition do_APP_NET_Service :: "loop_env \<Rightarrow> u32 \<Rightarrow> sys_state \<Rightarrow> sys_state" where
  "do_APP_NET_Service E now s =
     called Call_APP_NET_Service
       (s\<lparr>net := APP_NET_Service (stack E) (stack_events E) (App_I2C_GetTempInt (i2c s))
                     (can_text_0x101 E) (can_text_0x120 E) now (net s)\<rparr>)"

definition do_App_USB_Service :: "loop_env \<Rightarrow> sys_state \<Rightarrow> sys_state" where
  "do_App_USB_Service E s = called Call_App_USB_Service (s\<lparr>cons := usb_service E (cons s)\<rparr>)"

definition do_App_CAN_Service :: "u32 \<Rightarrow> sys_state \<Rightarrow> sys_state" where
  "do_App_CAN_Service now s =
     called Call_App_CAN_Service (s\<lparr>s_last_can := App_CAN_Service now (s_last_can s)\<rparr>)"

definition do_App_I2C_Service :: "loop_env \<Rightarrow> u32 \<Rightarrow> sys_state \<Rightarrow> sys_state" where
  "do_App_I2C_Service E now s =
     called Call_App_I2C_Service
       (s\<lparr>i2c := App_I2C_Service (i2c_flags E) (i2c_in E) now (i2c s)\<rparr>)"

definition do_TFT_Task :: "loop_env \<Rightarrow> sys_state \<Rightarrow> sys_state" where
  "do_TFT_Task E s = called Call_TFT_Task (s\<lparr>tft := TFT_Task (spi_status E) (tft s)\<rparr>)"

definition do_App_TFT_Service :: "loop_env \<Rightarrow> u32 \<Rightarrow> sys_state \<Rightarrow> sys_state" where
  "do_App_TFT_Service E now s =
     called Call_App_TFT_Service
       (case App_TFT_Service (ui_feed E) now (ui s) (tft s) of
          (u, t) \<Rightarrow> s\<lparr>ui := u, tft := t\<rparr>)"

definition do_App_CLI_Service :: "loop_env \<Rightarrow> sys_state \<Rightarrow> sys_state" where
  "do_App_CLI_Service E s = called Call_App_CLI_Service (s\<lparr>cons := cli_service E (cons s)\<rparr>)"

definition do_App_Tick :: "loop_env \<Rightarrow> sys_state \<Rightarrow> sys_state" where
  "do_App_Tick E s = called Call_App_Tick (s\<lparr>cons := tick_service E (cons s)\<rparr>)"

definition main_loop_body :: "loop_env \<Rightarrow> sys_state \<Rightarrow> sys_state" where
  "main_loop_body E s =
     (let now = tick E;
          s = do_APP_NET_Service E now s;
          s = do_App_USB_Service E s;
          s = do_App_CAN_Service now s;
          s = do_App_I2C_Service E now s;
          s = do_TFT_Task E s;
          s = do_App_TFT_Service E now s;
          s = do_App_CLI_Service E s;
          s = do_App_Tick E s
      in if App_USBLog_IsEmpty (cons s) \<and> \<not> TFT_IsBusy (tft s)
         then called Call_WFI s else s)"

section \<open>Auxiliary notions used in the statements and proofs\<close>

text \<open>
  The block of bytes that one call of \<open>TFT_Task\<close> streams during a fill, the \<open>k\<close>-th
  block of a blit, and the number of calls a blit of \<open>g_blit_len\<close> bytes needs, that is
  \<open>g_blit_len\<close> divided by the chunk size and rounded up.
\<close>

definition fill_chunk :: "u16 \<Rightarrow> u8 list" where
  "fill_chunk c = concat (replicate 256 [hi_byte c, lo_byte c])"

definition blit_chunk :: "u16 list \<Rightarrow> nat \<Rightarrow> u8 list" where
  "blit_chunk buf k = be_bytes (take 256 (drop (256 * k) buf))"

definition blit_calls :: "tft_state \<Rightarrow> nat" where
  "blit_calls s = (g_blit_len s + TFT_CHUNK_BYTES - 1) div TFT_CHUNK_BYTES"

text \<open>
  A sequence of calls of \<open>TFT_Task\<close>, one per outcome of the bus write it may make, and the
  number of successful writes in such a sequence.
\<close>

fun tft_pumps :: "HAL_StatusTypeDef list \<Rightarrow> tft_state \<Rightarrow> tft_state" where
  "tft_pumps [] s = s"
| "tft_pumps (h # hs) s = tft_pumps hs (TFT_Task h s)"

definition successes :: "HAL_StatusTypeDef list \<Rightarrow> nat" where
  "successes hs = length (filter (\<lambda>h. h = HAL_OK) hs)"

text \<open>An engine state in the middle of a blit: one line submitted, one chunk sent.\<close>

definition blit_running :: tft_state where
  "blit_running = TFT_Task HAL_OK (TFT_DrawTextLine_Async 0 (Some ''X'') 0xFFFF 0 tft_static)"

text \<open>
  What \<open>ui_pump_once\<close> does to the entry it renders and to the engine, and the
  invariant of the line cache: 16 entries whose texts fit their buffers, and every entry
  whose text differs from the last rendered text is flagged dirty.
\<close>

definition line_rendered :: "ui_line_t \<Rightarrow> ui_line_t" where
  "line_rendered L = L\<lparr>ln_last := strncpy_z (ln_text L) (UI_TEXT_MAX - 1), ln_dirty := False\<rparr>"

definition line_blit :: "nat \<Rightarrow> ui_line_t \<Rightarrow> tft_state \<Rightarrow> tft_state" where
  "line_blit idx L t =
     TFT_DrawTextLine_Async (to_u16 (idx * UI_LINE_H)) (Some (ln_text L)) (ln_fg L) (ln_bg L) t"

definition ui_inv :: "ui_state \<Rightarrow> bool" where
  "ui_inv u =
     (length (s_ui u) = UI_MAX_LINES \<and>
      (\<forall>i<UI_MAX_LINES. length (ln_text (s_ui u ! i)) < UI_TEXT_MAX \<and>
         (ln_text (s_ui u ! i) \<noteq> ln_last (s_ui u ! i) \<longrightarrow> ln_dirty (s_ui u ! i))))"

text \<open>A cache in which no entry needs rendering.\<close>

definition all_clean :: "ui_state \<Rightarrow> bool" where
  "all_clean u =
     (\<forall>i<UI_MAX_LINES. \<not> ln_dirty (s_ui u ! i) \<and> ln_text (s_ui u ! i) = ln_last (s_ui u ! i))"

text \<open>
  Instances for the sensor service: the values that the STM32F7 HAL gives the error
  flags, a read that fails with a NACK, one that times out, and one that delivers the
  bytes FD FF, that is -3.
\<close>

definition stm32_i2c_errors :: hal_i2c_errors where
  "stm32_i2c_errors = \<lparr> HAL_I2C_ERROR_NONE = 0x00, HAL_I2C_ERROR_AF = 0x04,
     HAL_I2C_ERROR_TIMEOUT = 0x20, HAL_I2C_ERROR_BERR = 0x01, HAL_I2C_ERROR_ARLO = 0x02,
     HAL_I2C_ERROR_OVR = 0x08, HAL_I2C_ERROR_DMA = 0x10 \<rparr>"

definition rx_nack :: i2c_rx where
  "rx_nack = \<lparr> rx_status = HAL_ERROR, rx_buf0 = 0, rx_buf1 = 0, rx_error = 0x04 \<rparr>"

definition rx_timeout :: i2c_rx where
  "rx_timeout = \<lparr> rx_status = HAL_TIMEOUT, rx_buf0 = 0, rx_buf1 = 0, rx_error = 0x20 \<rparr>"

definition rx_minus3 :: i2c_rx where
  "rx_minus3 = \<lparr> rx_status = HAL_OK, rx_buf0 = 0xFD, rx_buf1 = 0xFF, rx_error = 0 \<rparr>"

text \<open>
  Instances for the telemetry client: a stack on which every call succeeds, one whose
  \<^verbatim>\<open>tcp_connect\<close> fails, a sample, the client after initialisation, after the
  connection came up, and with one accepted send pending.
\<close>

definition lwip_ok :: lwip_env where
  "lwip_ok = \<lparr> udp_new_pcb = Some 1, pbuf_alloc_ok = True, udp_sendto_err = ERR_OK,
     tcp_new_pcb = Some 2, tcp_connect_err = ERR_OK, tcp_write_err = ERR_OK,
     tcp_output_err = ERR_OK \<rparr>"

definition lwip_refused :: lwip_env where
  "lwip_refused = lwip_ok\<lparr>tcp_connect_err := ERR_FAILED\<rparr>"

definition sample0 :: AppTelemetry where
  "sample0 = \<lparr> now_ms = 1000, i2c_temp_c = 25, can_0x101 = ''(none)'', can_0x120 = ''(none)'' \<rparr>"

definition net_down :: net_state where
  "net_down = APP_NET_Init lwip_ok (Some 0xC0A80132) net_static"

definition net_up :: net_state where
  "net_up = deliver (APP_NET_Poll lwip_ok [] 0 (APP_NET_Init lwip_ok (Some 0xC0A80132) net_static))
              (Ev_connected ERR_OK)"

definition net_pending :: net_state where
  "net_pending = snd (APP_NET_SendTCP lwip_ok (Some sample0) net_up)"

text \<open>The number of connection attempts made so far: the calls of \<^verbatim>\<open>tcp_new_ip_type\<close>.\<close>

definition connect_attempts :: "net_state \<Rightarrow> nat" where
  "connect_attempts s = length (filter (\<lambda>c. c = Tcp_new) (lwip s))"

text \<open>
  What the program may do to the client between two calls of \<open>APP_NET_SendTCP\<close>: the other
  entry points of app_net.c that change its state, and the callbacks that a poll delivers.
\<close>

datatype net_op =
    Op_Init lwip_env "u32 option"
  | Op_SetRemote "u32 option" u16 u16
  | Op_Poll lwip_env "tcp_event list" u32
  | Op_SendUDP lwip_env "AppTelemetry option"

fun net_step :: "net_state \<Rightarrow> net_op \<Rightarrow> net_state" where
  "net_step s (Op_Init E ip) = APP_NET_Init E ip s"
| "net_step s (Op_SetRemote ip udp_port tcp_port) = snd (APP_NET_SetRemote ip udp_port tcp_port s)"
| "net_step s (Op_Poll E evs now) = APP_NET_Poll E evs now s"
| "net_step s (Op_SendUDP E t) = snd (APP_NET_SendUDP E t s)"

fun op_events :: "net_op \<Rightarrow> tcp_event list" where
  "op_events (Op_Poll E evs now) = evs"
| "op_events (Op_Init E ip) = []"
| "op_events (Op_SetRemote ip udp_port tcp_port) = []"
| "op_events (Op_SendUDP E t) = []"

text \<open>A stack in which \<^verbatim>\<open>tcp_write\<close> fails.\<close>

definition lwip_write_fails :: lwip_env where
  "lwip_write_fails = lwip_ok\<lparr>tcp_write_err := ERR_FAILED\<rparr>"

text \<open>
  The send slot is held since the \<open>a\<close>-th connection attempt: no attempt has been undone,
  and a message is pending or there is no control block, unless a new attempt was made.
\<close>

definition slot_held :: "nat \<Rightarrow> net_state \<Rightarrow> bool" where
  "slot_held a s \<longleftrightarrow>
     a \<le> connect_attempts s \<and>
     (g_tcp_txlen s \<noteq> 0 \<or> g_tcp s = None \<or> a < connect_attempts s)"

text \<open>The service calls of one loop iteration, in the order of main.c.\<close>

definition loop_services :: "step list" where
  "loop_services = [Call_APP_NET_Service, Call_App_USB_Service, Call_App_CAN_Service,
     Call_App_I2C_Service, Call_TFT_Task, Call_App_TFT_Service, Call_App_CLI_Service,
     Call_App_Tick]"

section \<open>Render engine: chunked transfer\<close>

lemmas tft_consts =
  TFT_W_def TFT_H_def TFT_PIXELS_def FONT_W_def FONT_H_def CHAR_SP_def CELL_W_def
  LINE_H_def MAX_CHARS_def TFT_CHUNK_BYTES_def


lemma pix_bytes_append: "pix_bytes (a @ b) = pix_bytes a @ pix_bytes b"
  by (induction a rule: pix_bytes.induct) auto

lemma pix_bytes_replicate: "pix_bytes (replicate k (Pix c)) = concat (replicate k c)"
  by (induction k) auto

lemma concat_replicate_mult:
  "concat (replicate a (concat (replicate b x))) = concat (replicate (a * b) x)"
  by (induction a) (auto simp: replicate_add)

lemma length_concat_replicate2: "length (concat (replicate n [a, b])) = 2 * n"
  by (induction n) auto

lemma u32_sub_le: "b \<le> a \<Longrightarrow> a < 2 ^ 32 \<Longrightarrow> u32_sub a b = a - b"
proof -
  assume le: "b \<le> a" and lt: "a < 2 ^ 32"
  have e1: "a + 2 ^ 32 - b = (a - b) + 2 ^ 32" using le by arith
  have e2: "b mod 2 ^ 32 = b" using le lt by (intro mod_less) arith
  have "u32_sub a b = ((a - b) + 2 ^ 32) mod 2 ^ 32"
    by (simp only: u32_sub_def e1 e2)
  also have "\<dots> = (a - b) mod 2 ^ 32" by (simp only: mod_add_self2)
  also have "\<dots> = a - b" using lt by (intro mod_less) arith
  finally show ?thesis .
qed

lemma u32_add_lt: "a + b < 2 ^ 32 \<Longrightarrow> u32_add a b = a + b"
  by (simp add: u32_add_def)

lemma take_fill_chunk: "take 512 (fill_chunk c) = fill_chunk c"
  by (simp add: fill_chunk_def length_concat_replicate2)

lemma fill_step:
  assumes "g_op s = TFT_OP_FILL" "g_fill_sent_pixels s = 256 * k" "k < 80"
  shows "TFT_Task HAL_OK s =
    (if k = 79
     then s\<lparr>spi := spi s @ [Pix (fill_chunk (g_fill_color s))],
            g_fill_sent_pixels := 256 * Suc k, pin_cs := True, g_op := TFT_OP_NONE\<rparr>
     else s\<lparr>spi := spi s @ [Pix (fill_chunk (g_fill_color s))],
            g_fill_sent_pixels := 256 * Suc k\<rparr>)"
proof (cases "k = 79")
  case True
  have ch: "concat (replicate 256 [hi_byte c, lo_byte c]) = fill_chunk c" for c
    by (simp add: fill_chunk_def)
  have sent: "g_fill_sent_pixels s = 20224" using assms(2) True by simp
  show ?thesis
    by (simp add: True TFT_Task_def Let_def tft_consts assms(1) sent u32_sub_def u32_mul_def
        u32_add_def to_u16_def ch take_fill_chunk CS_H_def)
next
  case False
  then have k: "k < 79" using assms(3) by simp
  have rem: "u32_sub 20480 (256 * k) = 20480 - 256 * k"
    using k by (simp add: u32_sub_le)
  have rem2: "20480 - 256 * k \<noteq> 0" "20480 - 256 * k > 256"
    using k by arith+
  have add: "u32_add (256 * k) 256 = 256 * Suc k"
    using k by (subst u32_add_lt) simp_all
  have fin: "\<not> (256 * Suc k \<ge> (20480::nat))"
    using k by arith
  have mul: "u32_mul 256 2 = 512" by (simp add: u32_mul_def)
  have ch: "concat (replicate 256 [hi_byte c, lo_byte c]) = fill_chunk c" for c
    by (simp add: fill_chunk_def)
  have u16: "to_u16 512 = 512" by (simp add: to_u16_def)
  show ?thesis
    using k
    by (simp add: False TFT_Task_def Let_def tft_consts assms(1,2) rem rem2 mul ch u16
        take_fill_chunk add fin CS_H_def
        del: mult_Suc_right)
qed

lemma fill_pump_le:
  assumes "g_op s = TFT_OP_FILL" "g_fill_sent_pixels s = 0" "k \<le> 80"
  shows "(TFT_Task HAL_OK ^^ k) s =
     (if k = 80
      then s\<lparr>spi := spi s @ replicate k (Pix (fill_chunk (g_fill_color s))),
             g_fill_sent_pixels := 256 * k, pin_cs := True, g_op := TFT_OP_NONE\<rparr>
      else s\<lparr>spi := spi s @ replicate k (Pix (fill_chunk (g_fill_color s))),
             g_fill_sent_pixels := 256 * k\<rparr>)"
  using assms(3)
proof (induction k)
  case 0
  then show ?case using assms(2) by simp
next
  case (Suc k)
  have k: "k < 80" using Suc.prems by simp
  then have IH: "(TFT_Task HAL_OK ^^ k) s =
     s\<lparr>spi := spi s @ replicate k (Pix (fill_chunk (g_fill_color s))),
       g_fill_sent_pixels := 256 * k\<rparr>" using Suc.IH by simp
  have step: "(TFT_Task HAL_OK ^^ Suc k) s = TFT_Task HAL_OK ((TFT_Task HAL_OK ^^ k) s)"
    by (simp only: funpow.simps o_apply)
  have r: "replicate k x @ [x] = replicate (Suc k) x" for x :: spi_ev
    by (simp add: replicate_append_same)
  have e: "(Suc k = 80) = (k = 79)" by arith
  have "Suc 79 = (80::nat)" by simp
  then have r79: "replicate 79 x @ [x] = replicate 80 x" for x :: spi_ev
    using r [of x] by (metis replicate_Suc replicate_append_same)
  show ?case
    unfolding step IH e
    by (subst fill_step [where k = k])
       (simp_all add: assms(1) k r r79 del: replicate_Suc mult_Suc_right)
qed

lemma length_be_bytes: "length (be_bytes xs) = 2 * length xs"
  by (induction xs) (auto simp: be_bytes_def)

lemma be_bytes_append: "be_bytes (xs @ ys) = be_bytes xs @ be_bytes ys"
  by (simp add: be_bytes_def)

lemma blit_step:
  assumes "g_op s = TFT_OP_BLIT" "g_blit_ptr s = PTR_LINEBUF" "g_blit_len s = 2560"
    "length (g_linebuf s) = 1280" "g_blit_sent s = 512 * k" "k < 5"
  shows "TFT_Task HAL_OK s =
    (if k = 4
     then s\<lparr>spi := spi s @ [Pix (blit_chunk (g_linebuf s) k)],
            g_blit_sent := 512 * Suc k, pin_cs := True, g_op := TFT_OP_NONE\<rparr>
     else s\<lparr>spi := spi s @ [Pix (blit_chunk (g_linebuf s) k)],
            g_blit_sent := 512 * Suc k\<rparr>)"
proof -
  have len: "length (blit_chunk (g_linebuf s) k) = 512"
    using assms(4,6) by (simp add: blit_chunk_def length_be_bytes)
  have tk: "take 512 (blit_chunk (g_linebuf s) k) = blit_chunk (g_linebuf s) k"
    using len by simp
  have ch: "be_bytes (take 256 (drop (256 * k) (g_linebuf s))) = blit_chunk (g_linebuf s) k"
    by (simp add: blit_chunk_def)
  have mul: "u32_mul 256 2 = 512" by (simp add: u32_mul_def)
  have u16: "to_u16 512 = 512" by (simp add: to_u16_def)
  show ?thesis
  proof (cases "k = 4")
    case True
    have sent: "g_blit_sent s = 2048" using assms(5) True by simp
    show ?thesis
      using tk ch
      by (simp add: True TFT_Task_def Let_def tft_consts assms(1,2,3) sent u32_sub_def mul
          u32_add_def u16 CS_H_def blit_src_def)
  next
    case False
    then have k: "k < 4" using assms(6) by simp
    have rem: "u32_sub 2560 (512 * k) = 2560 - 512 * k"
      using k by (simp add: u32_sub_le)
    have rem2: "2560 - 512 * k \<noteq> 0" "(2560 - 512 * k) div 2 > 256"
      using k by arith+
    have add: "u32_add (512 * k) 512 = 512 * Suc k"
      using k by (subst u32_add_lt) simp_all
    have fin: "\<not> (512 * Suc k \<ge> (2560::nat))"
      using k by arith
    show ?thesis
      using k
      by (simp add: False TFT_Task_def Let_def tft_consts assms(1,2,3,5) rem rem2 mul u16
          ch tk add fin CS_H_def blit_src_def
          del: mult_Suc_right)
  qed
qed

lemma blit_pump_le:
  assumes "g_op s = TFT_OP_BLIT" "g_blit_ptr s = PTR_LINEBUF" "g_blit_len s = 2560"
    "length (g_linebuf s) = 1280" "g_blit_sent s = 0" "k \<le> 5"
  shows "(TFT_Task HAL_OK ^^ k) s =
     (if k = 5
      then s\<lparr>spi := spi s @ map (\<lambda>j. Pix (blit_chunk (g_linebuf s) j)) [0..<k],
             g_blit_sent := 512 * k, pin_cs := True, g_op := TFT_OP_NONE\<rparr>
      else s\<lparr>spi := spi s @ map (\<lambda>j. Pix (blit_chunk (g_linebuf s) j)) [0..<k],
             g_blit_sent := 512 * k\<rparr>)"
  using assms(6)
proof (induction k)
  case 0
  then show ?case using assms(5) by simp
next
  case (Suc k)
  have k: "k < 5" using Suc.prems by simp
  then have IH: "(TFT_Task HAL_OK ^^ k) s =
     s\<lparr>spi := spi s @ map (\<lambda>j. Pix (blit_chunk (g_linebuf s) j)) [0..<k],
       g_blit_sent := 512 * k\<rparr>" using Suc.IH by simp
  have step: "(TFT_Task HAL_OK ^^ Suc k) s = TFT_Task HAL_OK ((TFT_Task HAL_OK ^^ k) s)"
    by (simp only: funpow.simps o_apply)
  have e: "(Suc k = 5) = (k = 4)" by arith
  have u5: "[0..<5] = [0..<4] @ [4::nat]" by (simp add: eval_nat_numeral)
  show ?case
    unfolding step IH e
    by (subst blit_step [where k = k])
       (simp_all add: assms(1-4) k u5 del: mult_Suc_right)
qed

lemma concat_blit_chunks:
  "concat (map (blit_chunk buf) [0..<k]) = be_bytes (take (256 * k) buf)"
proof (induction k)
  case 0
  show ?case by (simp add: be_bytes_def)
next
  case (Suc k)
  have "take (256 * Suc k) buf = take (256 * k) buf @ take 256 (drop (256 * k) buf)"
    using take_add [of "256 * k" 256 buf] by (simp add: add.commute)
  then show ?case
    using Suc.IH by (simp add: be_bytes_append blit_chunk_def del: mult_Suc_right)
qed

lemma pix_bytes_map_Pix: "pix_bytes (map (\<lambda>j. Pix (f j)) js) = concat (map f js)"
  by (induction js) auto

lemma SetAddrWindow_eq:
  "TFT_SetAddrWindow x0 y0 x1 y1 s =
     s\<lparr>pin_cs := True, pin_dc := False,
       spi := spi s @ [Cmd 0x2A, Dat (of_nat (x0 div 256)), Dat (of_nat (x0 mod 256)),
                      Dat (of_nat (x1 div 256)), Dat (of_nat (x1 mod 256)),
                      Cmd 0x2B, Dat (of_nat (y0 div 256)), Dat (of_nat (y0 mod 256)),
                      Dat (of_nat (y1 div 256)), Dat (of_nat (y1 mod 256)), Cmd 0x2C]\<rparr>"
  by (simp add: TFT_SetAddrWindow_def tft_cmd_def tft_data8_def CS_L_def CS_H_def DC_L_def
      DC_H_def Let_def)

lemma length_linebuf_set [simp]: "length (linebuf_set x y c buf) = length buf"
  by (simp add: linebuf_set_def)

lemma length_foldl_inv:
  "(\<And>b x. length (f b x) = length b) \<Longrightarrow> length (foldl f buf xs) = length buf"
  by (induction xs arbitrary: buf) auto

lemma length_linebuf_draw_char [simp]:
  "length (linebuf_draw_char x y ch fg bg buf) = length buf"
proof -
  have a: "length (foldl (\<lambda>buf row. linebuf_set (X row) (Y row) (C row) buf) b rows) = length b"
    for X Y :: "nat \<Rightarrow> nat" and C b and rows :: "nat list"
    by (rule length_foldl_inv) simp
  have b: "length (foldl (\<lambda>buf col.
      foldl (\<lambda>buf row. linebuf_set (X col row) (Y col row) (C col row) buf) buf rows) b cols)
      = length b"
    for X Y :: "nat \<Rightarrow> nat \<Rightarrow> nat" and C b and rows cols :: "nat list"
    by (rule length_foldl_inv) (simp add: a)
  show ?thesis
    unfolding linebuf_draw_char_def Let_def by (simp add: a b)
qed

lemma length_draw_chars [simp]: "length (draw_chars i x cs fg bg buf) = length buf"
  by (induction i x cs fg bg buf rule: draw_chars.induct) (auto simp: Let_def)

lemma fill_start:
  "g_op (TFT_FillColor_Async c s) = TFT_OP_FILL"
  "g_fill_sent_pixels (TFT_FillColor_Async c s) = 0"
  "g_fill_color (TFT_FillColor_Async c s) = c"
  by (simp_all add: TFT_FillColor_Async_def SetAddrWindow_eq Let_def CS_L_def DC_H_def)

lemma blit_start:
  assumes "y < TFT_H" "g_op s = TFT_OP_NONE"
  shows "g_op (TFT_DrawTextLine_Async y str fg bg s) = TFT_OP_BLIT"
    "g_blit_ptr (TFT_DrawTextLine_Async y str fg bg s) = PTR_LINEBUF"
    "g_blit_len (TFT_DrawTextLine_Async y str fg bg s) = 2560"
    "length (g_linebuf (TFT_DrawTextLine_Async y str fg bg s)) = 1280"
    "g_blit_sent (TFT_DrawTextLine_Async y str fg bg s) = 0"
  using assms
  by (simp_all add: TFT_DrawTextLine_Async_def SetAddrWindow_eq Let_def CS_L_def DC_H_def
      linebuf_clear_def TFT_W_def LINE_H_def)

lemma task_idle: "g_op s = TFT_OP_NONE \<Longrightarrow> TFT_Task h s = s"
  by (simp add: TFT_Task_def)

lemma funpow_idle: "g_op s = TFT_OP_NONE \<Longrightarrow> (TFT_Task h ^^ j) s = s"
  by (induction j) (simp_all add: task_idle)

lemma pumps_past_end:
  assumes "g_op ((TFT_Task HAL_OK ^^ n) s) = TFT_OP_NONE" "n \<le> k"
  shows "(TFT_Task HAL_OK ^^ k) s = (TFT_Task HAL_OK ^^ n) s"
proof -
  obtain j where k: "k = j + n" using assms(2) by (metis le_add_diff_inverse2)
  show ?thesis unfolding k funpow_add o_apply by (rule funpow_idle [OF assms(1)])
qed

lemma task_fail_fill:
  assumes "h \<noteq> HAL_OK" "g_op s = TFT_OP_FILL" "g_fill_sent_pixels s < TFT_PIXELS"
  shows "TFT_Task h s = s"
proof -
  have "u32_sub TFT_PIXELS (g_fill_sent_pixels s) \<noteq> 0"
    using assms(3) by (simp add: u32_sub_le TFT_PIXELS_def TFT_W_def TFT_H_def)
  then show ?thesis using assms(1,2) by (simp add: TFT_Task_def Let_def)
qed

lemma task_fail_blit:
  assumes "h \<noteq> HAL_OK" "g_op s = TFT_OP_BLIT" "g_blit_sent s < g_blit_len s"
    "g_blit_len s < 2 ^ 32"
  shows "TFT_Task h s = s"
proof -
  have "u32_sub (g_blit_len s) (g_blit_sent s) \<noteq> 0"
    using assms(3,4) by (simp add: u32_sub_le)
  then show ?thesis using assms(1,2) by (simp add: TFT_Task_def Let_def)
qed

lemma pumps_count:
  assumes noop: "\<And>k h. h \<noteq> HAL_OK \<Longrightarrow>
      TFT_Task h ((TFT_Task HAL_OK ^^ k) s0) = (TFT_Task HAL_OK ^^ k) s0"
  shows "tft_pumps hs ((TFT_Task HAL_OK ^^ k) s0) = (TFT_Task HAL_OK ^^ (k + successes hs)) s0"
proof (induction hs arbitrary: k)
  case Nil
  show ?case by (simp add: successes_def)
next
  case (Cons h hs)
  show ?case
  proof (cases "h = HAL_OK")
    case True
    have "TFT_Task HAL_OK ((TFT_Task HAL_OK ^^ k) s0) = (TFT_Task HAL_OK ^^ Suc k) s0" by simp
    then show ?thesis using Cons.IH [of "Suc k"] True by (simp add: successes_def)
  next
    case False
    then show ?thesis using Cons.IH [of k] noop [of h k] by (simp add: successes_def)
  qed
qed

lemma fill_fail_noop:
  assumes "g_op f = TFT_OP_FILL" "g_fill_sent_pixels f = 0" "h \<noteq> HAL_OK"
  shows "TFT_Task h ((TFT_Task HAL_OK ^^ k) f) = (TFT_Task HAL_OK ^^ k) f"
proof (cases "k < 80")
  case True
  then have e: "(TFT_Task HAL_OK ^^ k) f =
      f\<lparr>spi := spi f @ replicate k (Pix (fill_chunk (g_fill_color f))),
        g_fill_sent_pixels := 256 * k\<rparr>"
    using fill_pump_le [OF assms(1,2), of k] by simp
  show ?thesis
    unfolding e
    by (rule task_fail_fill) (use True assms in \<open>simp_all add: TFT_PIXELS_def TFT_W_def TFT_H_def\<close>)
next
  case False
  have "g_op ((TFT_Task HAL_OK ^^ 80) f) = TFT_OP_NONE"
    using fill_pump_le [OF assms(1,2), of 80] by simp
  then have "g_op ((TFT_Task HAL_OK ^^ k) f) = TFT_OP_NONE"
    using pumps_past_end [of 80 f k] False by simp
  then show ?thesis by (rule task_idle)
qed

lemma blit_fail_noop:
  assumes "g_op s = TFT_OP_BLIT" "g_blit_ptr s = PTR_LINEBUF" "g_blit_len s = 2560"
    "length (g_linebuf s) = 1280" "g_blit_sent s = 0" "h \<noteq> HAL_OK"
  shows "TFT_Task h ((TFT_Task HAL_OK ^^ k) s) = (TFT_Task HAL_OK ^^ k) s"
proof (cases "k < 5")
  case True
  then have e: "(TFT_Task HAL_OK ^^ k) s =
      s\<lparr>spi := spi s @ map (\<lambda>j. Pix (blit_chunk (g_linebuf s) j)) [0..<k],
        g_blit_sent := 512 * k\<rparr>"
    using blit_pump_le [OF assms(1-5), of k] by simp
  show ?thesis
    unfolding e
    by (rule task_fail_blit) (use True assms in simp_all)
next
  case False
  have "g_op ((TFT_Task HAL_OK ^^ 5) s) = TFT_OP_NONE"
    using blit_pump_le [OF assms(1-5), of 5] by simp
  then have "g_op ((TFT_Task HAL_OK ^^ k) s) = TFT_OP_NONE"
    using pumps_past_end [of 5 s k] False by simp
  then show ?thesis by (rule task_idle)
qed

text \<open>
  Claim C1. After \<open>TFT_FillColor_Async color\<close>, in whatever state it is called, any sequence
  of calls of \<open>TFT_Task\<close> leaves the engine where its successful bus writes alone would: a
  call whose write fails changes nothing and the chunk is sent again. The engine is busy
  during the first 79 successful calls and idle after the 80th, further calls do nothing,
  and the pixel bytes streamed are exactly \<open>TFT_W * TFT_H\<close> = 160 * 128 pixels of that colour,
  high byte first. After an accepted \<open>TFT_DrawTextLine_Async\<close> (a row on the screen, engine
  idle) the operation has \<open>g_blit_len\<close> = 160 * 8 * 2 bytes; it takes \<open>blit_calls\<close> = 5
  successful calls of \<open>TFT_Task\<close>, the length divided by the chunk of 512 bytes and rounded
  up, failed writes again not counting; the engine is busy before the last of them and idle
  after it, and the bytes streamed are exactly the \<open>g_blit_len\<close> bytes of the line buffer,
  whatever it holds.
\<close>

theorem C1_fill_and_blit_transfer:
  "(let s0 = TFT_FillColor_Async color s; fin = (TFT_Task HAL_OK ^^ 80) s0 in
      (\<forall>hs. tft_pumps hs s0 = (TFT_Task HAL_OK ^^ successes hs) s0) \<and>
      (\<forall>k<80. TFT_IsBusy ((TFT_Task HAL_OK ^^ k) s0)) \<and>
      \<not> TFT_IsBusy fin \<and> (\<forall>h. TFT_Task h fin = fin) \<and>
      pix_bytes (spi fin) =
        pix_bytes (spi s0) @ concat (replicate (TFT_W * TFT_H) [hi_byte color, lo_byte color]))
   \<and>
   (y < TFT_H \<and> \<not> TFT_IsBusy s \<longrightarrow>
     (let s0 = TFT_DrawTextLine_Async y str fg bg s; n = blit_calls s0;
          fin = (TFT_Task HAL_OK ^^ n) s0 in
        g_blit_len s0 = 160 * 8 * 2 \<and> n = 5 \<and>
        length (be_bytes (g_linebuf s0)) = g_blit_len s0 \<and>
        (\<forall>hs. tft_pumps hs s0 = (TFT_Task HAL_OK ^^ successes hs) s0) \<and>
        (\<forall>k<n. TFT_IsBusy ((TFT_Task HAL_OK ^^ k) s0)) \<and>
        \<not> TFT_IsBusy fin \<and> (\<forall>h. TFT_Task h fin = fin) \<and>
        pix_bytes (spi fin) = pix_bytes (spi s0) @ be_bytes (g_linebuf s0)))"
proof -
  define f where "f = TFT_FillColor_Async color s"
  have f0: "g_op f = TFT_OP_FILL" "g_fill_sent_pixels f = 0" "g_fill_color f = color"
    by (simp_all add: f_def fill_start)
  have fpumps: "tft_pumps hs f = (TFT_Task HAL_OK ^^ successes hs) f" for hs
    using pumps_count [of f hs 0] fill_fail_noop [OF f0(1,2)] by simp
  have fbusy: "TFT_IsBusy ((TFT_Task HAL_OK ^^ k) f)" if "k < 80" for k
    using that f0(1) by (simp add: fill_pump_le [OF f0(1,2)] TFT_IsBusy_def)
  have f80: "(TFT_Task HAL_OK ^^ 80) f =
      f\<lparr>spi := spi f @ replicate 80 (Pix (fill_chunk color)),
        g_fill_sent_pixels := 256 * 80, pin_cs := True, g_op := TFT_OP_NONE\<rparr>"
    using fill_pump_le [OF f0(1,2), of 80] by (simp add: f0(3))
  have fidle: "\<not> TFT_IsBusy ((TFT_Task HAL_OK ^^ 80) f)"
    by (simp add: f80 TFT_IsBusy_def)
  then have fstay: "TFT_Task h ((TFT_Task HAL_OK ^^ 80) f) = (TFT_Task HAL_OK ^^ 80) f" for h
    by (intro task_idle) (simp add: TFT_IsBusy_def)
  have "concat (replicate 80 (fill_chunk color)) =
      concat (replicate (80 * 256) [hi_byte color, lo_byte color])"
    unfolding fill_chunk_def by (rule concat_replicate_mult)
  then have fpix: "pix_bytes (spi ((TFT_Task HAL_OK ^^ 80) f)) =
      pix_bytes (spi f) @ concat (replicate (TFT_W * TFT_H) [hi_byte color, lo_byte color])"
    by (simp add: f80 pix_bytes_append pix_bytes_replicate TFT_W_def TFT_H_def)
  have fill: "(let s0 = TFT_FillColor_Async color s; fin = (TFT_Task HAL_OK ^^ 80) s0 in
      (\<forall>hs. tft_pumps hs s0 = (TFT_Task HAL_OK ^^ successes hs) s0) \<and>
      (\<forall>k<80. TFT_IsBusy ((TFT_Task HAL_OK ^^ k) s0)) \<and>
      \<not> TFT_IsBusy fin \<and> (\<forall>h. TFT_Task h fin = fin) \<and>
      pix_bytes (spi fin) =
        pix_bytes (spi s0) @ concat (replicate (TFT_W * TFT_H) [hi_byte color, lo_byte color]))"
    unfolding Let_def f_def [symmetric]
    using fpumps fbusy fidle fstay fpix by blast
  have blit: "(let s0 = TFT_DrawTextLine_Async y str fg bg s; n = blit_calls s0;
          fin = (TFT_Task HAL_OK ^^ n) s0 in
        g_blit_len s0 = 160 * 8 * 2 \<and> n = 5 \<and>
        length (be_bytes (g_linebuf s0)) = g_blit_len s0 \<and>
        (\<forall>hs. tft_pumps hs s0 = (TFT_Task HAL_OK ^^ successes hs) s0) \<and>
        (\<forall>k<n. TFT_IsBusy ((TFT_Task HAL_OK ^^ k) s0)) \<and>
        \<not> TFT_IsBusy fin \<and> (\<forall>h. TFT_Task h fin = fin) \<and>
        pix_bytes (spi fin) = pix_bytes (spi s0) @ be_bytes (g_linebuf s0))"
    if y: "y < TFT_H" and idle: "\<not> TFT_IsBusy s"
  proof -
    define b where "b = TFT_DrawTextLine_Async y str fg bg s"
    have op: "g_op s = TFT_OP_NONE" using idle by (simp add: TFT_IsBusy_def)
    note b0 = blit_start [OF y op, of str fg bg, folded b_def]
    have n: "blit_calls b = 5" by (simp add: blit_calls_def b0(3) TFT_CHUNK_BYTES_def)
    have len: "g_blit_len b = 160 * 8 * 2" "length (be_bytes (g_linebuf b)) = g_blit_len b"
      using b0(3,4) by (simp_all add: length_be_bytes)
    have bpumps: "tft_pumps hs b = (TFT_Task HAL_OK ^^ successes hs) b" for hs
      using pumps_count [of b hs 0] blit_fail_noop [OF b0] by simp
    have bbusy: "TFT_IsBusy ((TFT_Task HAL_OK ^^ k) b)" if "k < 5" for k
      using that b0(1) by (simp add: blit_pump_le [OF b0] TFT_IsBusy_def)
    have b5: "(TFT_Task HAL_OK ^^ 5) b =
        b\<lparr>spi := spi b @ map (\<lambda>j. Pix (blit_chunk (g_linebuf b) j)) [0..<5],
          g_blit_sent := 512 * 5, pin_cs := True, g_op := TFT_OP_NONE\<rparr>"
      using blit_pump_le [OF b0, of 5] by simp
    have bidle: "\<not> TFT_IsBusy ((TFT_Task HAL_OK ^^ 5) b)"
      by (simp only: b5) (simp add: TFT_IsBusy_def)
    then have bstay: "TFT_Task h ((TFT_Task HAL_OK ^^ 5) b) = (TFT_Task HAL_OK ^^ 5) b" for h
      by (intro task_idle) (simp add: TFT_IsBusy_def)
    have "concat (map (blit_chunk (g_linebuf b)) [0..<5]) = be_bytes (g_linebuf b)"
      using concat_blit_chunks [of "g_linebuf b" 5] b0(4) by simp
    then have bpix: "pix_bytes (spi ((TFT_Task HAL_OK ^^ 5) b)) =
        pix_bytes (spi b) @ be_bytes (g_linebuf b)"
      by (simp only: b5) (simp add: pix_bytes_append pix_bytes_map_Pix del: upt_Suc)
    show ?thesis
      unfolding Let_def b_def [symmetric] n
      using len bpumps bbusy bidle bstay bpix by blast
  qed
  from fill blit show ?thesis by blast
qed

theorem C1_witness:
  "TFT_IsBusy ((TFT_Task HAL_OK ^^ 79) (TFT_FillColor_Async 0xF800 tft_static)) \<and>
   \<not> TFT_IsBusy ((TFT_Task HAL_OK ^^ 80) (TFT_FillColor_Async 0xF800 tft_static)) \<and>
   TFT_IsBusy ((TFT_Task HAL_OK ^^ 4)
      (TFT_DrawTextLine_Async 8 (Some ''X'') 0xFFFF 0 tft_static)) \<and>
   \<not> TFT_IsBusy ((TFT_Task HAL_OK ^^ 5)
      (TFT_DrawTextLine_Async 8 (Some ''X'') 0xFFFF 0 tft_static)) \<and>
   tft_pumps [HAL_OK, HAL_BUSY, HAL_OK]
      (TFT_DrawTextLine_Async 8 (Some ''X'') 0xFFFF 0 tft_static) =
     (TFT_Task HAL_OK ^^ 2) (TFT_DrawTextLine_Async 8 (Some ''X'') 0xFFFF 0 tft_static)"
proof -
  have h: "(8::nat) < TFT_H \<and> \<not> TFT_IsBusy tft_static"
    by (simp add: TFT_H_def TFT_IsBusy_def tft_static_def)
  have c: "successes [HAL_OK, HAL_BUSY, HAL_OK] = 2" by (simp add: successes_def)
  show ?thesis
    using C1_fill_and_blit_transfer [of "0xF800" tft_static 8 "Some ''X''" "0xFFFF" 0] h
    unfolding Let_def by (auto simp: c [symmetric])
qed

subsection \<open>Starting an operation\<close>


lemma DrawTextLine_busy: "TFT_IsBusy s \<Longrightarrow> TFT_DrawTextLine_Async y str fg bg s = s"
  by (simp add: TFT_DrawTextLine_Async_def TFT_IsBusy_def)

text \<open>
  Claim C2, as the code has it. \<open>TFT_DrawTextLine_Async\<close> begins a blit only if no
  operation is active and the row is on the screen: called while the engine is busy (or
  with a row beyond the screen) it returns at once and leaves the whole engine state as
  it was. \<open>TFT_FillColor_Async\<close> has no such guard: in every state it starts a fill
  with the given colour and a pixel counter of 0. Both functions return \<^verbatim>\<open>void\<close>;
  acceptance shows only in \<open>TFT_IsBusy\<close>.
\<close>

theorem C2_start_guard:
  "(TFT_IsBusy s \<longrightarrow> TFT_DrawTextLine_Async y str fg bg s = s) \<and>
   (y \<ge> TFT_H \<longrightarrow> TFT_DrawTextLine_Async y str fg bg s = s) \<and>
   (\<not> TFT_IsBusy s \<and> y < TFT_H \<longrightarrow>
      g_op (TFT_DrawTextLine_Async y str fg bg s) = TFT_OP_BLIT \<and>
      g_blit_sent (TFT_DrawTextLine_Async y str fg bg s) = 0) \<and>
   g_op (TFT_FillColor_Async color s) = TFT_OP_FILL \<and>
   g_fill_color (TFT_FillColor_Async color s) = color \<and>
   g_fill_sent_pixels (TFT_FillColor_Async color s) = 0"
  by (simp add: DrawTextLine_busy fill_start blit_start TFT_IsBusy_def)
     (simp add: TFT_DrawTextLine_Async_def)

lemma blit_running_facts:
  "g_op blit_running = TFT_OP_BLIT" "g_blit_sent blit_running = 512"
proof -
  have y: "(0::nat) < TFT_H" by (simp add: TFT_H_def)
  have op: "g_op tft_static = TFT_OP_NONE" by (simp add: tft_static_def)
  note b0 = blit_start [OF y op, of "Some ''X''" "0xFFFF" 0]
  define D where "D = TFT_DrawTextLine_Async 0 (Some ''X'') 0xFFFF 0 tft_static"
  have e: "TFT_Task HAL_OK D =
      D\<lparr>spi := spi D @ [Pix (blit_chunk (g_linebuf D) 0)], g_blit_sent := 512\<rparr>"
    using blit_pump_le [OF b0, of 1] by (simp add: D_def)
  show "g_op blit_running = TFT_OP_BLIT" "g_blit_sent blit_running = 512"
    unfolding blit_running_def D_def [symmetric] e
    using b0(1) by (simp_all add: D_def)
qed

text \<open>
  The claim as stated fails for the fill: while a blit is in progress,
  \<open>TFT_FillColor_Async\<close> is not rejected and replaces the operation tag.
\<close>

theorem C2_counterexample:
  "TFT_IsBusy blit_running \<and>
   g_op blit_running = TFT_OP_BLIT \<and>
   g_op (TFT_FillColor_Async 0xF800 blit_running) = TFT_OP_FILL \<and>
   TFT_FillColor_Async 0xF800 blit_running \<noteq> blit_running"
proof -
  have "g_op (TFT_FillColor_Async 0xF800 blit_running) = TFT_OP_FILL" by (rule fill_start)
  moreover have "TFT_FillColor_Async 0xF800 blit_running \<noteq> blit_running"
    using calculation blit_running_facts(1) by auto
  ultimately show ?thesis by (simp add: TFT_IsBusy_def blit_running_facts)
qed

theorem C2_witness:
  "TFT_DrawTextLine_Async 8 (Some ''Y'') 0xFFFF 0 blit_running = blit_running \<and>
   TFT_DrawTextLine_Async 200 (Some ''Y'') 0xFFFF 0 tft_static = tft_static \<and>
   g_op (TFT_DrawTextLine_Async 8 (Some ''Y'') 0xFFFF 0 tft_static) = TFT_OP_BLIT"
proof -
  have a: "TFT_IsBusy blit_running" by (simp add: TFT_IsBusy_def blit_running_facts)
  have b: "(200::nat) \<ge> TFT_H" "(8::nat) < TFT_H" by (simp_all add: TFT_H_def)
  have c: "\<not> TFT_IsBusy tft_static" by (simp add: TFT_IsBusy_def tft_static_def)
  show ?thesis
    using C2_start_guard [of blit_running 8 "Some ''Y''" "0xFFFF" 0]
      C2_start_guard [of tft_static 200 "Some ''Y''" "0xFFFF" 0]
      C2_start_guard [of tft_static 8 "Some ''Y''" "0xFFFF" 0] a b c
    by simp
qed

section \<open>UI line manager: dirty tracking\<close>

lemma ui_pump_scan_cases:
  "ui_pump_scan k n u t = (u', t') \<Longrightarrow>
     (s_ui u' = s_ui u \<and> t' = t) \<or>
     (\<exists>idx<n. ln_used (s_ui u ! idx) \<and>
        (ln_dirty (s_ui u ! idx) \<or> ln_text (s_ui u ! idx) \<noteq> ln_last (s_ui u ! idx)) \<and>
        t' = line_blit idx (s_ui u ! idx) t \<and>
        s_ui u' = (s_ui u)[idx := line_rendered (s_ui u ! idx)])"
proof (induction k n u t rule: ui_pump_scan.induct)
  case (1 k n u t)
  show ?case
  proof (cases "k < n")
    case False
    then show ?thesis using "1.prems" by (subst (asm) ui_pump_scan.simps) auto
  next
    case True
    define idx where "idx = ((s_ui_rr u + k) mod n) mod 256"
    have idx: "idx < n" using True unfolding idx_def
      by (metis gr_implies_not_zero mod_less_divisor mod_mod_trivial mod_less_eq_dividend
          le_less_trans not_gr_zero)
    show ?thesis
    proof (cases "ln_used (s_ui u ! idx)")
      case False
      then have "ui_pump_scan (k + 1) n u t = (u', t')"
        using "1.prems" True by (subst (asm) ui_pump_scan.simps) (simp add: idx_def Let_def)
      then show ?thesis
        using "1.IH"(1) [OF True idx_def refl] False by simp
    next
      case used: True
      show ?thesis
      proof (cases "ln_dirty (s_ui u ! idx) \<or> \<not> strcmp_eq (ln_text (s_ui u ! idx)) (ln_last (s_ui u ! idx))")
        case False
        then have "ui_pump_scan (k + 1) n u t = (u', t')"
          using "1.prems" True used
          by (subst (asm) ui_pump_scan.simps) (simp add: idx_def Let_def)
        then show ?thesis
          using "1.IH"(2) [OF True idx_def refl] False used by simp
      next
        case d: True
        have "u' = u\<lparr>s_ui := (s_ui u)[idx := line_rendered (s_ui u ! idx)],
                 s_ui_rr := ((idx + 1) mod n) mod 256\<rparr>"
          and "t' = line_blit idx (s_ui u ! idx) t"
          using "1.prems" True used d
          by (subst (asm) ui_pump_scan.simps;
              simp add: idx_def Let_def line_rendered_def line_blit_def)+
        then show ?thesis
          using idx used d by (auto simp: strcmp_eq_def)
      qed
    qed
  qed
qed


lemma ui_inv_ClearAll: "ui_inv (App_UI_ClearAll u)"
  by (simp add: ui_inv_def App_UI_ClearAll_def ui_line_zero_def UI_TEXT_MAX_def)

lemma ui_inv_ClearLine: "ui_inv u \<Longrightarrow> ui_inv (App_UI_ClearLine idx u)"
  by (auto simp: ui_inv_def App_UI_ClearLine_def ui_line_zero_def UI_TEXT_MAX_def
      nth_list_update)

lemma ui_inv_SetLine: "ui_inv u \<Longrightarrow> ui_inv (App_UI_SetLine idx fg bg str u)"
  by (auto simp: ui_inv_def App_UI_SetLine_def Let_def UI_TEXT_MAX_def strncpy_z_def
      nth_list_update)

lemma ui_inv_pump:
  assumes "ui_inv u"
  shows "ui_inv (fst (ui_pump_once u t))"
proof -
  obtain u' t' where r: "ui_pump_once u t = (u', t')" by (cases "ui_pump_once u t")
  have "s_ui u' = s_ui u \<or> (\<exists>idx. s_ui u' = (s_ui u)[idx := line_rendered (s_ui u ! idx)])"
  proof (cases "TFT_IsBusy t \<or> ui_active_count u = 0")
    case True
    then show ?thesis using r by (auto simp: ui_pump_once_def Let_def split: if_splits)
  next
    case False
    then have "ui_pump_scan 0 (ui_active_count u) u t = (u', t')"
      using r by (auto simp: ui_pump_once_def Let_def split: if_splits)
    from ui_pump_scan_cases [OF this] show ?thesis by blast
  qed
  then show ?thesis
  proof
    assume "s_ui u' = s_ui u"
    then show ?thesis using assms r by (simp add: ui_inv_def)
  next
    assume "\<exists>idx. s_ui u' = (s_ui u)[idx := line_rendered (s_ui u ! idx)]"
    then obtain idx where e: "s_ui u' = (s_ui u)[idx := line_rendered (s_ui u ! idx)]" ..
    have "ln_text (line_rendered (s_ui u ! i)) = ln_last (line_rendered (s_ui u ! i))"
      if "i < UI_MAX_LINES" for i
    proof -
      have "length (ln_text (s_ui u ! i)) \<le> 127"
        using assms that by (auto simp: ui_inv_def UI_TEXT_MAX_def)
      then show ?thesis
        by (simp add: line_rendered_def strncpy_z_def UI_TEXT_MAX_def)
    qed
    note tl = this
    have len: "length (s_ui u') = UI_MAX_LINES" using e assms by (simp add: ui_inv_def)
    have pt: "length (ln_text (s_ui u' ! i)) < UI_TEXT_MAX \<and>
        (ln_text (s_ui u' ! i) \<noteq> ln_last (s_ui u' ! i) \<longrightarrow> ln_dirty (s_ui u' ! i))"
      if i: "i < UI_MAX_LINES" for i
    proof (cases "i = idx")
      case True
      then have "s_ui u' ! i = line_rendered (s_ui u ! i)"
        using e i assms by (simp add: ui_inv_def)
      moreover have "ln_text (line_rendered (s_ui u ! i)) = ln_text (s_ui u ! i)"
        by (simp add: line_rendered_def)
      ultimately show ?thesis
        using tl [OF i] assms i by (simp add: ui_inv_def)
    next
      case False
      then have "s_ui u' ! i = s_ui u ! i" using e by simp
      then show ?thesis using assms i by (simp add: ui_inv_def)
    qed
    show ?thesis using len pt r by (simp add: ui_inv_def)
  qed
qed

lemma ui_inv_step: "ui_inv (fst st) \<Longrightarrow> ui_inv (fst (ui_step st op))"
  by (cases st; cases op)
     (simp_all add: ui_inv_ClearAll ui_inv_ClearLine ui_inv_SetLine ui_inv_pump)

lemma ui_inv_run: "ui_inv (fst st) \<Longrightarrow> ui_inv (fst (ui_run st ops))"
  unfolding ui_run_def
  by (induction ops arbitrary: st) (simp_all add: ui_inv_step)


lemma foldl_last_used_bound:
  "l0 < int m \<Longrightarrow> \<forall>x\<in>set xs. x < m \<Longrightarrow>
     foldl (\<lambda>l i. if P i then int i else l) l0 xs < int m"
  by (induction xs arbitrary: l0) auto

lemma ui_active_count_le: "ui_active_count u \<le> UI_MAX_LINES"
proof -
  have "foldl (\<lambda>l i. if ln_used (s_ui u ! i) then int i else l) (- 1) [0..<UI_MAX_LINES]
      < int UI_MAX_LINES"
    by (rule foldl_last_used_bound) (simp_all add: UI_MAX_LINES_def)
  then show ?thesis unfolding ui_active_count_def Let_def by (simp split: if_splits) linarith
qed

lemma ui_pump_once_cases:
  assumes r: "ui_pump_once u t = (u', t')"
  shows "(s_ui u' = s_ui u \<and> t' = t) \<or>
     (\<exists>idx<UI_MAX_LINES. ln_used (s_ui u ! idx) \<and>
        (ln_dirty (s_ui u ! idx) \<or> ln_text (s_ui u ! idx) \<noteq> ln_last (s_ui u ! idx)) \<and>
        t' = line_blit idx (s_ui u ! idx) t \<and>
        s_ui u' = (s_ui u)[idx := line_rendered (s_ui u ! idx)])"
proof (cases "TFT_IsBusy t \<or> ui_active_count u = 0")
  case True
  then have "u' = u \<and> t' = t" using r by (auto simp: ui_pump_once_def Let_def split: if_splits)
  then show ?thesis by simp
next
  case False
  with r have "ui_pump_scan 0 (ui_active_count u) u t = (u', t')"
    by (auto simp: ui_pump_once_def Let_def split: if_splits)
  from ui_pump_scan_cases [OF this] show ?thesis
  proof
    assume "s_ui u' = s_ui u \<and> t' = t"
    then show ?thesis by simp
  next
    assume "\<exists>idx<ui_active_count u. ln_used (s_ui u ! idx) \<and>
        (ln_dirty (s_ui u ! idx) \<or> ln_text (s_ui u ! idx) \<noteq> ln_last (s_ui u ! idx)) \<and>
        t' = line_blit idx (s_ui u ! idx) t \<and>
        s_ui u' = (s_ui u)[idx := line_rendered (s_ui u ! idx)]"
    then obtain idx where lt: "idx < ui_active_count u"
      and rest: "ln_used (s_ui u ! idx) \<and>
        (ln_dirty (s_ui u ! idx) \<or> ln_text (s_ui u ! idx) \<noteq> ln_last (s_ui u ! idx)) \<and>
        t' = line_blit idx (s_ui u ! idx) t \<and>
        s_ui u' = (s_ui u)[idx := line_rendered (s_ui u ! idx)]"
      by blast
    from lt have "idx < UI_MAX_LINES" using ui_active_count_le [of u] by simp
    with rest show ?thesis by blast
  qed
qed

lemma ramwr_count_append: "ramwr_count (a @ b) = ramwr_count a + ramwr_count b"
  by (simp add: ramwr_count_def)

lemma ramwr_DrawTextLine:
  "ramwr_count (spi (TFT_DrawTextLine_Async y str fg bg t)) \<le> ramwr_count (spi t) + 1"
  by (simp add: TFT_DrawTextLine_Async_def Let_def TFT_SetAddrWindow_def tft_cmd_def
      tft_data8_def CS_L_def CS_H_def DC_L_def DC_H_def ramwr_count_def)

lemma SetLine_same_text:
  assumes "ln_text (s_ui u ! idx) = (case str of None \<Rightarrow> [] | Some x \<Rightarrow> c_str x)"
  shows "ln_dirty (s_ui (App_UI_SetLine idx fg bg str u) ! i) = ln_dirty (s_ui u ! i) \<and>
    ln_text (s_ui (App_UI_SetLine idx fg bg str u) ! i) = ln_text (s_ui u ! i) \<and>
    ln_last (s_ui (App_UI_SetLine idx fg bg str u) ! i) = ln_last (s_ui u ! i)"
proof (cases "idx \<ge> UI_MAX_LINES")
  case True
  then show ?thesis by (simp add: App_UI_SetLine_def)
next
  case False
  define L where "L = (s_ui u ! idx)\<lparr>ln_used := True, ln_fg := fg, ln_bg := bg\<rparr>"
  have e: "s_ui (App_UI_SetLine idx fg bg str u) = (s_ui u)[idx := L]"
    using False assms by (simp add: App_UI_SetLine_def Let_def strncmp_eq_def L_def)
  show ?thesis
  proof (cases "i = idx \<and> idx < length (s_ui u)")
    case True
    then show ?thesis by (simp add: e L_def)
  next
    case False
    then have "(s_ui u)[idx := L] ! i = s_ui u ! i"
      by (cases "idx < length (s_ui u)") (simp_all add: list_update_beyond)
    then show ?thesis by (simp add: e)
  qed
qed

subsection \<open>The dirty flag\<close>

text \<open>
  Claim C3, as the code has it. After every sequence of line-manager operations
  (\<open>App_UI_SetLine\<close>, \<open>ui_pump_once\<close>, \<open>App_UI_ClearLine\<close>, \<open>App_UI_ClearAll\<close>, with
  calls of \<open>TFT_Task\<close> in between) from the cleared cache, every entry whose desired text
  differs from its last rendered text has its dirty flag set; and when \<open>ui_pump_once\<close>
  then changes the engine at all, it has submitted one used entry whose dirty flag was set,
  as a blit of that entry's text at row \<open>idx * UI_LINE_H\<close>. The converse direction of the
  claimed equivalence does not hold: the flag records that a \<open>SetLine\<close> changed the text
  since the last render, and stays set when the text is changed back.
\<close>

theorem C3_unrendered_text_is_dirty:
  "(case ui_run (App_UI_ClearAll u0, t0) ops of (u, t) \<Rightarrow>
      (\<forall>i<UI_MAX_LINES. ln_text (s_ui u ! i) \<noteq> ln_last (s_ui u ! i) \<longrightarrow> ln_dirty (s_ui u ! i)) \<and>
      (snd (ui_pump_once u t) \<noteq> t \<longrightarrow>
         (\<exists>idx<UI_MAX_LINES. ln_used (s_ui u ! idx) \<and> ln_dirty (s_ui u ! idx) \<and>
            snd (ui_pump_once u t) =
              TFT_DrawTextLine_Async (idx * UI_LINE_H) (Some (ln_text (s_ui u ! idx)))
                (ln_fg (s_ui u ! idx)) (ln_bg (s_ui u ! idx)) t)))"
proof -
  obtain u t where r: "ui_run (App_UI_ClearAll u0, t0) ops = (u, t)"
    by (cases "ui_run (App_UI_ClearAll u0, t0) ops")
  have inv: "ui_inv u"
    using ui_inv_run [of "(App_UI_ClearAll u0, t0)" ops] r by (simp add: ui_inv_ClearAll)
  then have a: "\<forall>i<UI_MAX_LINES. ln_text (s_ui u ! i) \<noteq> ln_last (s_ui u ! i) \<longrightarrow>
      ln_dirty (s_ui u ! i)"
    by (simp add: ui_inv_def)
  have b: "\<exists>idx<UI_MAX_LINES. ln_used (s_ui u ! idx) \<and> ln_dirty (s_ui u ! idx) \<and>
            snd (ui_pump_once u t) =
              TFT_DrawTextLine_Async (idx * UI_LINE_H) (Some (ln_text (s_ui u ! idx)))
                (ln_fg (s_ui u ! idx)) (ln_bg (s_ui u ! idx)) t"
    if ne: "snd (ui_pump_once u t) \<noteq> t"
  proof -
    obtain u' t' where p: "ui_pump_once u t = (u', t')" by (cases "ui_pump_once u t")
    with ne have "t' \<noteq> t" by simp
    with ui_pump_once_cases [OF p] obtain idx where idx: "idx < UI_MAX_LINES"
      and u: "ln_used (s_ui u ! idx)"
      and d: "ln_dirty (s_ui u ! idx) \<or> ln_text (s_ui u ! idx) \<noteq> ln_last (s_ui u ! idx)"
      and t': "t' = line_blit idx (s_ui u ! idx) t"
      by blast
    from d a idx have "ln_dirty (s_ui u ! idx)" by blast
    moreover have "to_u16 (idx * UI_LINE_H) = idx * UI_LINE_H"
      using idx by (simp add: to_u16_def UI_LINE_H_def UI_MAX_LINES_def)
    ultimately show ?thesis
      using idx u t' p by (auto simp: line_blit_def)
  qed
  show ?thesis using a b by (simp add: r)
qed

text \<open>
  The claimed equivalence fails: setting line 0 to "A" and then back to the empty text
  leaves the entry dirty although its text equals the last rendered text, and
  \<open>ui_pump_once\<close> then submits that line.
\<close>

theorem C3_counterexample:
  "(case ui_run (App_UI_ClearAll ui_static, tft_static)
           [SetLine 0 0xFFFF 0 (Some ''A''), SetLine 0 0xFFFF 0 (Some [])] of
      (u, t) \<Rightarrow>
        ln_dirty (s_ui u ! 0) \<and> ln_text (s_ui u ! 0) = ln_last (s_ui u ! 0) \<and>
        snd (ui_pump_once u t) = TFT_DrawTextLine_Async 0 (Some []) 0xFFFF 0 t \<and>
        snd (ui_pump_once u t) \<noteq> t)"
proof -
  define u where "u = App_UI_SetLine 0 0xFFFF 0 (Some [])
      (App_UI_SetLine 0 0xFFFF 0 (Some ''A'') (App_UI_ClearAll ui_static))"
  have r: "ui_run (App_UI_ClearAll ui_static, tft_static)
           [SetLine 0 0xFFFF 0 (Some ''A''), SetLine 0 0xFFFF 0 (Some [])] = (u, tft_static)"
    by (simp add: ui_run_def u_def)
  have s1: "s_ui u = (replicate UI_MAX_LINES ui_line_zero)
      [0 := \<lparr>ln_used = True, ln_dirty = True, ln_fg = 0xFFFF, ln_bg = 0, ln_text = [],
              ln_last = []\<rparr>]"
    by (simp add: u_def App_UI_SetLine_def App_UI_ClearAll_def Let_def c_str_def strncmp_eq_def
        strncpy_z_def ui_line_zero_def UI_MAX_LINES_def UI_TEXT_MAX_def)
  have rr: "s_ui_rr u = 0"
    by (simp add: u_def App_UI_SetLine_def App_UI_ClearAll_def Let_def)
  have n: "ui_active_count u = 1"
    by (simp add: ui_active_count_def s1 UI_MAX_LINES_def ui_line_zero_def eval_nat_numeral)
  have idle: "\<not> TFT_IsBusy tft_static" by (simp add: TFT_IsBusy_def tft_static_def)
  have p: "snd (ui_pump_once u tft_static) =
      TFT_DrawTextLine_Async 0 (Some []) 0xFFFF 0 tft_static"
    using idle
    by (simp add: ui_pump_once_def n ui_pump_scan.simps [of 0] rr s1 UI_MAX_LINES_def
        Let_def strcmp_eq_def strncpy_z_def UI_TEXT_MAX_def to_u16_def UI_LINE_H_def)
  have "g_op (TFT_DrawTextLine_Async 0 (Some []) 0xFFFF 0 tft_static) = TFT_OP_BLIT"
    by (rule blit_start) (simp_all add: TFT_H_def tft_static_def)
  then have ne: "TFT_DrawTextLine_Async 0 (Some []) 0xFFFF 0 tft_static \<noteq> tft_static"
    using idle by (auto simp: TFT_IsBusy_def)
  show ?thesis
    unfolding r using p ne by (simp add: s1 UI_MAX_LINES_def)
qed

theorem C3_witness:
  "(case ui_run (App_UI_ClearAll ui_static, tft_static) [SetLine 0 0xFFFF 0 (Some ''A'')] of
      (u, t) \<Rightarrow> ln_text (s_ui u ! 0) \<noteq> ln_last (s_ui u ! 0) \<and> ln_dirty (s_ui u ! 0))"
proof -
  have e: "ui_run (App_UI_ClearAll ui_static, tft_static) [SetLine 0 0xFFFF 0 (Some ''A'')]
      = (App_UI_SetLine 0 0xFFFF 0 (Some ''A'') (App_UI_ClearAll ui_static), tft_static)"
    by (simp add: ui_run_def)
  have t: "ln_text (s_ui (App_UI_SetLine 0 0xFFFF 0 (Some ''A'') (App_UI_ClearAll ui_static)) ! 0)
      \<noteq> ln_last (s_ui (App_UI_SetLine 0 0xFFFF 0 (Some ''A'') (App_UI_ClearAll ui_static)) ! 0)"
    by (simp add: App_UI_ClearAll_def App_UI_SetLine_def UI_MAX_LINES_def
      ui_line_zero_def Let_def strncmp_eq_def strncpy_z_def c_str_def UI_TEXT_MAX_def)
  have "0 < UI_MAX_LINES" by (simp add: UI_MAX_LINES_def)
  then show ?thesis
    using C3_unrendered_text_is_dirty [of ui_static tft_static "[SetLine 0 0xFFFF 0 (Some ''A'')]"] t
    by (simp add: e)
qed

subsection \<open>One line per pump, idempotent SetLine\<close>

lemma pump_clean:
  assumes "all_clean u"
  shows "snd (ui_pump_once u t) = t" "s_ui (fst (ui_pump_once u t)) = s_ui u"
proof -
  obtain u' t' where p: "ui_pump_once u t = (u', t')" by (cases "ui_pump_once u t")
  from ui_pump_once_cases [OF p] assms have "s_ui u' = s_ui u \<and> t' = t"
    unfolding all_clean_def by blast
  then show "snd (ui_pump_once u t) = t" "s_ui (fst (ui_pump_once u t)) = s_ui u"
    by (simp_all add: p)
qed

lemma all_clean_cong: "s_ui u' = s_ui u \<Longrightarrow> all_clean u' = all_clean u"
  by (simp add: all_clean_def)

lemma repeat_same_text:
  assumes "all_clean u" "ln_text (s_ui u ! idx) = c_str x"
  shows "\<exists>u'. ui_run (u, t) (concat (replicate n [SetLine idx fg bg (Some x), PumpOnce])) = (u', t)
     \<and> all_clean u' \<and> ln_text (s_ui u' ! idx) = c_str x"
  using assms
proof (induction n arbitrary: u)
  case 0
  then show ?case by (simp add: ui_run_def)
next
  case (Suc n)
  define u1 where "u1 = App_UI_SetLine idx fg bg (Some x) u"
  have same: "ln_dirty (s_ui u1 ! i) = ln_dirty (s_ui u ! i) \<and>
      ln_text (s_ui u1 ! i) = ln_text (s_ui u ! i) \<and>
      ln_last (s_ui u1 ! i) = ln_last (s_ui u ! i)" for i
    unfolding u1_def by (rule SetLine_same_text) (simp add: Suc.prems(2))
  have c1: "all_clean u1" using Suc.prems(1) same by (simp add: all_clean_def)
  define u2 where "u2 = fst (ui_pump_once u1 t)"
  have p: "ui_pump_once u1 t = (u2, t)"
    using pump_clean(1) [OF c1, of t] by (simp add: u2_def prod_eq_iff)
  have s2: "s_ui u2 = s_ui u1" unfolding u2_def by (rule pump_clean(2) [OF c1])
  have c2: "all_clean u2" using c1 s2 by (simp add: all_clean_def)
  have t2: "ln_text (s_ui u2 ! idx) = c_str x" using same Suc.prems(2) s2 by simp
  from Suc.IH [OF c2 t2] obtain u' where
    "ui_run (u2, t) (concat (replicate n [SetLine idx fg bg (Some x), PumpOnce])) = (u', t)"
    "all_clean u'" "ln_text (s_ui u' ! idx) = c_str x" by blast
  then show ?case
    by (simp add: ui_run_def u1_def [symmetric] p)
qed

lemma run_engine_tasks:
  "ui_run (u, t) (replicate n (EngineTask h)) = (u, (TFT_Task h ^^ n) t)"
proof (induction n arbitrary: t)
  case 0
  show ?case by (simp add: ui_run_def)
next
  case (Suc n)
  have "ui_run (u, t) (replicate (Suc n) (EngineTask h)) =
      ui_run (u, TFT_Task h t) (replicate n (EngineTask h))"
    by (simp add: ui_run_def)
  also have "\<dots> = (u, (TFT_Task h ^^ n) (TFT_Task h t))" by (rule Suc.IH)
  finally show ?case by (simp add: funpow_swap1)
qed

lemma ui_run_append: "ui_run st (a @ b) = ui_run (ui_run st a) b"
  by (simp add: ui_run_def)

lemma ramwr_DrawTextLine_idle:
  "y < TFT_H \<Longrightarrow> g_op t = TFT_OP_NONE \<Longrightarrow>
     ramwr_count (spi (TFT_DrawTextLine_Async y str fg bg t)) = ramwr_count (spi t) + 1"
  by (simp add: TFT_DrawTextLine_Async_def Let_def TFT_SetAddrWindow_def tft_cmd_def
      tft_data8_def CS_L_def CS_H_def DC_L_def DC_H_def ramwr_count_def)

text \<open>The first render of line 0 from the cleared cache.\<close>

lemma first_render:
  fixes fg bg u0
  defines "u1 \<equiv> App_UI_SetLine 0 fg bg (Some ''X'') (App_UI_ClearAll u0)"
  assumes idle: "\<not> TFT_IsBusy t"
  shows "snd (ui_pump_once u1 t) = TFT_DrawTextLine_Async 0 (Some ''X'') fg bg t"
    and "all_clean (fst (ui_pump_once u1 t))"
    and "ln_text (s_ui (fst (ui_pump_once u1 t)) ! 0) = ''X''"
proof -
  have cx: "c_str ''X'' = ''X''" by (simp add: c_str_def)
  have s1: "s_ui u1 = (replicate UI_MAX_LINES ui_line_zero)
      [0 := \<lparr>ln_used = True, ln_dirty = True, ln_fg = fg, ln_bg = bg, ln_text = ''X'',
              ln_last = []\<rparr>]"
    by (simp add: u1_def App_UI_SetLine_def App_UI_ClearAll_def Let_def cx strncmp_eq_def
        strncpy_z_def ui_line_zero_def UI_MAX_LINES_def UI_TEXT_MAX_def)
  have rr: "s_ui_rr u1 = 0" by (simp add: u1_def App_UI_SetLine_def App_UI_ClearAll_def Let_def)
  have n: "ui_active_count u1 = 1"
    by (simp add: ui_active_count_def s1 UI_MAX_LINES_def ui_line_zero_def eval_nat_numeral)
  have p: "ui_pump_once u1 t =
      (u1\<lparr>s_ui := (s_ui u1)[0 := \<lparr>ln_used = True, ln_dirty = False, ln_fg = fg, ln_bg = bg,
              ln_text = ''X'', ln_last = ''X''\<rparr>], s_ui_rr := 0\<rparr>,
       TFT_DrawTextLine_Async 0 (Some ''X'') fg bg t)"
    using idle
    by (simp add: ui_pump_once_def n ui_pump_scan.simps [of 0] ui_pump_scan.simps [of "Suc 0"]
        rr s1 UI_MAX_LINES_def
        Let_def strcmp_eq_def strncpy_z_def UI_TEXT_MAX_def to_u16_def UI_LINE_H_def)
  show "snd (ui_pump_once u1 t) = TFT_DrawTextLine_Async 0 (Some ''X'') fg bg t"
    by (simp add: p)
  show "ln_text (s_ui (fst (ui_pump_once u1 t)) ! 0) = ''X''"
    by (simp add: p s1 UI_MAX_LINES_def)
  have "\<not> ln_dirty (s_ui (fst (ui_pump_once u1 t)) ! i) \<and>
      ln_text (s_ui (fst (ui_pump_once u1 t)) ! i) = ln_last (s_ui (fst (ui_pump_once u1 t)) ! i)"
    if "i < UI_MAX_LINES" for i
    using that by (cases "i = 0") (simp_all add: p s1 UI_MAX_LINES_def ui_line_zero_def)
  then show "all_clean (fst (ui_pump_once u1 t))" by (simp add: all_clean_def)
qed


lemma ramwr_count_map_Pix: "ramwr_count (map (\<lambda>j. Pix (f j)) js) = 0"
  by (induction js) (simp_all add: ramwr_count_def)

lemma blit_completes:
  fixes y str fg bg t
  defines "b \<equiv> TFT_DrawTextLine_Async y str fg bg t"
  assumes "y < TFT_H" "g_op t = TFT_OP_NONE"
  shows "\<not> TFT_IsBusy ((TFT_Task HAL_OK ^^ 5) b)"
    and "ramwr_count (spi ((TFT_Task HAL_OK ^^ 5) b)) = ramwr_count (spi t) + 1"
proof -
  note b0 = blit_start [OF assms(2,3), of str fg bg, folded b_def]
  have b5: "(TFT_Task HAL_OK ^^ 5) b =
      b\<lparr>spi := spi b @ map (\<lambda>j. Pix (blit_chunk (g_linebuf b) j)) [0..<5],
        g_blit_sent := 512 * 5, pin_cs := True, g_op := TFT_OP_NONE\<rparr>"
    using blit_pump_le [OF b0, of 5] by simp
  show "\<not> TFT_IsBusy ((TFT_Task HAL_OK ^^ 5) b)"
    by (simp only: b5) (simp add: TFT_IsBusy_def)
  have "ramwr_count (spi b) = ramwr_count (spi t) + 1"
    unfolding b_def by (rule ramwr_DrawTextLine_idle [OF assms(2,3)])
  then show "ramwr_count (spi ((TFT_Task HAL_OK ^^ 5) b)) = ramwr_count (spi t) + 1"
    by (simp only: b5) (simp add: ramwr_count_append ramwr_count_map_Pix del: upt_Suc)
qed

text \<open>
  Claim C7. In every state one call of \<open>ui_pump_once\<close> issues at most one RAMWR command
  (it starts at most one line blit) and changes at most one cache entry, the one it
  rendered. A call of \<open>App_UI_SetLine\<close> whose text equals the stored desired text of the
  entry leaves every dirty flag as it was. Scenario: from the cleared cache and an idle
  engine, line 0 is set to "X", rendered by one pump and streamed by five successful
  calls of \<open>TFT_Task\<close>; 30 further \<open>SetLine(0, attrs, "X")\<close> calls, each followed by a
  pump, leave the engine state as it was: no further render.
\<close>

theorem C7_one_line_per_pump_idempotent_SetLine:
  "ramwr_count (spi (snd (ui_pump_once u t))) \<le> ramwr_count (spi t) + 1 \<and>
   (s_ui (fst (ui_pump_once u t)) = s_ui u \<or>
      (\<exists>idx<UI_MAX_LINES.
         s_ui (fst (ui_pump_once u t)) = (s_ui u)[idx := line_rendered (s_ui u ! idx)])) \<and>
   (ln_text (s_ui u ! idx) = c_str x \<longrightarrow>
      (\<forall>i. ln_dirty (s_ui (App_UI_SetLine idx fg bg (Some x) u) ! i) = ln_dirty (s_ui u ! i))) \<and>
   (\<not> TFT_IsBusy t0 \<longrightarrow>
      (let st1 = ui_run (App_UI_ClearAll u0, t0)
                   ([SetLine 0 fg bg (Some ''X''), PumpOnce] @ replicate 5 (EngineTask HAL_OK));
           st2 = ui_run st1 (concat (replicate 30 [SetLine 0 fg bg (Some ''X''), PumpOnce]))
       in ramwr_count (spi (snd st1)) = ramwr_count (spi t0) + 1 \<and>
          \<not> TFT_IsBusy (snd st1) \<and>
          snd st2 = snd st1))"
proof -
  obtain u' t' where p: "ui_pump_once u t = (u', t')" by (cases "ui_pump_once u t")
  from ui_pump_once_cases [OF p]
  have a: "ramwr_count (spi (snd (ui_pump_once u t))) \<le> ramwr_count (spi t) + 1"
    and b: "s_ui (fst (ui_pump_once u t)) = s_ui u \<or>
      (\<exists>idx<UI_MAX_LINES.
         s_ui (fst (ui_pump_once u t)) = (s_ui u)[idx := line_rendered (s_ui u ! idx)])"
    using ramwr_DrawTextLine by (auto simp: p line_blit_def)
  have c: "\<forall>i. ln_dirty (s_ui (App_UI_SetLine idx fg bg (Some x) u) ! i) = ln_dirty (s_ui u ! i)"
    if "ln_text (s_ui u ! idx) = c_str x"
    using SetLine_same_text [of u idx "Some x" fg bg] that by simp
  have d: "(let st1 = ui_run (App_UI_ClearAll u0, t0)
                   ([SetLine 0 fg bg (Some ''X''), PumpOnce] @ replicate 5 (EngineTask HAL_OK));
           st2 = ui_run st1 (concat (replicate 30 [SetLine 0 fg bg (Some ''X''), PumpOnce]))
       in ramwr_count (spi (snd st1)) = ramwr_count (spi t0) + 1 \<and>
          \<not> TFT_IsBusy (snd st1) \<and>
          snd st2 = snd st1)"
    if idle: "\<not> TFT_IsBusy t0"
  proof -
    define u1 where "u1 = App_UI_SetLine 0 fg bg (Some ''X'') (App_UI_ClearAll u0)"
    define u2 where "u2 = fst (ui_pump_once u1 t0)"
    define t1 where "t1 = TFT_DrawTextLine_Async 0 (Some ''X'') fg bg t0"
    define t2 where "t2 = (TFT_Task HAL_OK ^^ 5) t1"
    note fr = first_render [OF idle, of fg bg u0, folded u1_def]
    have p1: "ui_pump_once u1 t0 = (u2, t1)"
      using fr(1) by (simp add: u2_def t1_def prod_eq_iff)
    have st1: "ui_run (App_UI_ClearAll u0, t0)
                   ([SetLine 0 fg bg (Some ''X''), PumpOnce] @ replicate 5 (EngineTask HAL_OK))
        = (u2, t2)"
      unfolding ui_run_append run_engine_tasks [symmetric] t2_def
      by (simp add: ui_run_def u1_def [symmetric] p1)
    have y: "(0::nat) < TFT_H" by (simp add: TFT_H_def)
    have op: "g_op t0 = TFT_OP_NONE" using idle by (simp add: TFT_IsBusy_def)
    note bc = blit_completes [OF y op, of "Some ''X''" fg bg, folded t1_def, folded t2_def]
    have cx: "c_str ''X'' = ''X''" by (simp add: c_str_def)
    have "all_clean u2" "ln_text (s_ui u2 ! 0) = c_str ''X''"
      using fr(2,3) by (simp_all add: u2_def cx)
    from repeat_same_text [OF this, of t2 30 fg bg] obtain u3 where
      "ui_run (u2, t2) (concat (replicate 30 [SetLine 0 fg bg (Some ''X''), PumpOnce])) = (u3, t2)"
      by blast
    then show ?thesis
      unfolding Let_def st1 using bc by simp
  qed
  show ?thesis using a b c d by blast
qed

theorem C7_witness:
  "ln_dirty (s_ui (App_UI_SetLine 0 0xFFFF 0 (Some [])
      (App_UI_SetLine 0 0xFFFF 0 (Some []) ui_static)) ! 0) =
     ln_dirty (s_ui (App_UI_SetLine 0 0xFFFF 0 (Some []) ui_static) ! 0) \<and>
   (let st1 = ui_run (App_UI_ClearAll ui_static, tft_static)
                ([SetLine 0 0xFFFF 0 (Some ''X''), PumpOnce] @ replicate 5 (EngineTask HAL_OK));
        st2 = ui_run st1 (concat (replicate 30 [SetLine 0 0xFFFF 0 (Some ''X''), PumpOnce]))
    in ramwr_count (spi (snd st1)) = ramwr_count (spi tft_static) + 1 \<and> snd st2 = snd st1)"
proof -
  have h1: "ln_text (s_ui (App_UI_SetLine 0 0xFFFF 0 (Some []) ui_static) ! 0) = c_str []"
    by (simp add: App_UI_SetLine_def ui_static_def UI_MAX_LINES_def Let_def c_str_def
        strncmp_eq_def ui_line_zero_def)
  have h2: "\<not> TFT_IsBusy tft_static" by (simp add: TFT_IsBusy_def tft_static_def)
  show ?thesis
    using C7_one_line_per_pump_idempotent_SetLine
      [of "App_UI_SetLine 0 0xFFFF 0 (Some []) ui_static" tft_static 0 "[]" "0xFFFF" 0
          tft_static ui_static] h1 h2
    unfolding Let_def by blast
qed

section \<open>Sensor poll service: read with recovery\<close>

text \<open>
  Claim C4. For every poll that fires (the signed difference to \<open>nextPollMs\<close> is not
  negative): if the first read succeeds, no recovery runs; if the first read fails and
  the retry succeeds, the published state is ok with the value read by the retry, the
  last-error string is "NONE" and exactly one bus recovery ran; if both reads fail, the
  published state is error, the last valid value is kept, the last-error string is the one
  \<open>I2C_ErrStr\<close> derives from the error code of the second failure, and exactly one bus
  recovery ran.
\<close>

theorem C4_read_with_recovery:
  "\<not> sint (now - nextPollMs s) < 0 \<longrightarrow>
     (let s' = App_I2C_Service H E now s in
        (rx_status (rx_first E) = HAL_OK \<longrightarrow>
           g_i2c_ok s' \<and> g_i2c_temp s' = le_int16 (rx_buf0 (rx_first E)) (rx_buf1 (rx_first E)) \<and>
           g_i2c_last_err s' = ''NONE'' \<and> bus_recoveries s' = bus_recoveries s) \<and>
        (rx_status (rx_first E) \<noteq> HAL_OK \<and> rx_status (rx_retry E) = HAL_OK \<longrightarrow>
           g_i2c_ok s' \<and> g_i2c_temp s' = le_int16 (rx_buf0 (rx_retry E)) (rx_buf1 (rx_retry E)) \<and>
           g_i2c_last_err s' = ''NONE'' \<and> bus_recoveries s' = bus_recoveries s + 1) \<and>
        (rx_status (rx_first E) \<noteq> HAL_OK \<and> rx_status (rx_retry E) \<noteq> HAL_OK \<longrightarrow>
           \<not> g_i2c_ok s' \<and> g_i2c_temp s' = g_i2c_temp s \<and>
           g_i2c_last_err s' = I2C_ErrStr H (rx_error (rx_retry E)) \<and>
           bus_recoveries s' = bus_recoveries s + 1))"
  by (simp add: App_I2C_Service_def I2C_ReadTemp_Fixed_def I2C_ReadTempFromESP32_def
      I2C1_BusRecover_def Let_def)

theorem C4_witness:
  "(let s' = App_I2C_Service stm32_i2c_errors
               \<lparr>rx_first = rx_nack, rx_retry = rx_minus3, sda_level = (\<lambda>i. 3 \<le> i)\<rparr>
               500 i2c_static
    in g_i2c_ok s' \<and> g_i2c_temp s' = - 3 \<and> g_i2c_last_err s' = ''NONE'' \<and>
       bus_recoveries s' = 1) \<and>
   (let s' = App_I2C_Service stm32_i2c_errors
               \<lparr>rx_first = rx_nack, rx_retry = rx_timeout, sda_level = (\<lambda>i. 3 \<le> i)\<rparr>
               500 i2c_static
    in \<not> g_i2c_ok s' \<and> g_i2c_last_err s' = ''TIMEOUT'' \<and> bus_recoveries s' = 1)"
proof -
  have fire: "\<not> sint ((500::u32) - nextPollMs i2c_static) < 0"
    by (simp add: i2c_static_def)
  have v: "le_int16 0xFD 0xFF = - 3" by (simp add: le_int16_def)
  have e: "I2C_ErrStr stm32_i2c_errors 0x20 = ''TIMEOUT''"
    by (simp add: I2C_ErrStr_def stm32_i2c_errors_def)
  show ?thesis
    using C4_read_with_recovery [of 500 i2c_static stm32_i2c_errors
        "\<lparr>rx_first = rx_nack, rx_retry = rx_minus3, sda_level = (\<lambda>i. 3 \<le> i)\<rparr>"]
      C4_read_with_recovery [of 500 i2c_static stm32_i2c_errors
        "\<lparr>rx_first = rx_nack, rx_retry = rx_timeout, sda_level = (\<lambda>i. 3 \<le> i)\<rparr>"]
      fire
    by (simp add: Let_def rx_nack_def rx_minus3_def rx_timeout_def v e i2c_static_def)
qed

section \<open>Telemetry client: the single-flight send guard\<close>

lemma telemetry_fmt_nonempty: "0 < length (telemetry_fmt t)"
  by (simp add: telemetry_fmt_def)

lemma SendTCP_reject:
  "g_tcp_txlen s \<noteq> 0 \<or> g_tcp_state s \<noteq> TCP_UP \<or> g_tcp s = None \<Longrightarrow>
     APP_NET_SendTCP E t s = (False, s)"
  by (auto simp: APP_NET_SendTCP_def APP_NET_TcpIsConnected_def split: option.splits)

lemma tx_len_pos:
  "0 < nat (if int (length (telemetry_fmt t)) \<ge> 256 then 256 - 1
            else int (length (telemetry_fmt t))) mod 2 ^ 16"
  using telemetry_fmt_nonempty [of t] by auto

lemma SendTCP_accept:
  assumes "fst (APP_NET_SendTCP E t s)"
  shows "g_tcp_txlen s = 0" "g_tcp_txlen (snd (APP_NET_SendTCP E t s)) \<noteq> 0"
    "g_tcp (snd (APP_NET_SendTCP E t s)) = g_tcp s"
    "\<exists>m. t = Some m \<and> g_tcp_txbuf (snd (APP_NET_SendTCP E t s)) = take 255 (telemetry_fmt m) \<and>
       lwip (snd (APP_NET_SendTCP E t s)) =
         lwip s @ [Tcp_write (take 255 (telemetry_fmt m)), Tcp_output]"
proof -
  obtain m where m: "t = Some m" using assms by (cases t) (simp_all add: APP_NET_SendTCP_def)
  have c: "APP_NET_TcpIsConnected s" "g_tcp_txlen s = 0"
    "tcp_write_err E = ERR_OK" "tcp_output_err E = ERR_OK"
    using assms unfolding m
    by (auto simp: APP_NET_SendTCP_def snprintf_def Let_def split: if_splits)
  show "g_tcp_txlen s = 0" by (rule c(2))
  have l: "length (telemetry_fmt m) \<noteq> 0" using telemetry_fmt_nonempty [of m] by simp
  show "g_tcp_txlen (snd (APP_NET_SendTCP E t s)) \<noteq> 0"
    using c tx_len_pos [of m] l
    by (simp add: m APP_NET_SendTCP_def snprintf_def Let_def)
  show "g_tcp (snd (APP_NET_SendTCP E t s)) = g_tcp s"
    using c l by (simp add: m APP_NET_SendTCP_def snprintf_def Let_def)
  have "g_tcp_txbuf (snd (APP_NET_SendTCP E t s)) = take 255 (telemetry_fmt m) \<and>
       lwip (snd (APP_NET_SendTCP E t s)) =
         lwip s @ [Tcp_write (take 255 (telemetry_fmt m)), Tcp_output]"
    using c l by (auto simp: m APP_NET_SendTCP_def snprintf_def Let_def min_def)
  then show "\<exists>m. t = Some m \<and> g_tcp_txbuf (snd (APP_NET_SendTCP E t s)) = take 255 (telemetry_fmt m) \<and>
       lwip (snd (APP_NET_SendTCP E t s)) =
         lwip s @ [Tcp_write (take 255 (telemetry_fmt m)), Tcp_output]"
    using m by blast
qed

lemma SendTCP_fail_guard:
  "\<not> fst (APP_NET_SendTCP E t s) \<Longrightarrow>
     g_tcp_txlen (snd (APP_NET_SendTCP E t s)) = g_tcp_txlen s"
  by (auto simp: APP_NET_SendTCP_def snprintf_def Let_def split: option.splits if_splits)

lemma deliver_pending:
  "e \<noteq> Ev_sent \<Longrightarrow> g_tcp_txlen s \<noteq> 0 \<or> g_tcp s = None \<Longrightarrow>
     g_tcp_txlen (deliver s e) \<noteq> 0 \<or> g_tcp (deliver s e) = None"
  by (cases e)
     (auto simp: on_tcp_connected_def on_tcp_err_def on_tcp_recv_def app_tcp_close_def
        tcp_force_abort_def Let_def)

lemma foldl_deliver_pending:
  "Ev_sent \<notin> set evs \<Longrightarrow> g_tcp_txlen s \<noteq> 0 \<or> g_tcp s = None \<Longrightarrow>
     g_tcp_txlen (foldl deliver s evs) \<noteq> 0 \<or> g_tcp (foldl deliver s evs) = None"
proof (induction evs arbitrary: s)
  case Nil
  then show ?case by simp
next
  case (Cons e evs)
  have "g_tcp_txlen (deliver s e) \<noteq> 0 \<or> g_tcp (deliver s e) = None"
    using Cons.prems by (intro deliver_pending) auto
  then show ?case using Cons.IH [of "deliver s e"] Cons.prems(1) by simp
qed

lemma deliver_attempts: "connect_attempts (deliver s e) = connect_attempts s"
  by (cases e)
     (auto simp: on_tcp_connected_def on_tcp_sent_def on_tcp_err_def on_tcp_recv_def
        app_tcp_close_def tcp_force_abort_def Let_def connect_attempts_def)

lemma deliver_txbuf: "g_tcp_txbuf (deliver s e) = g_tcp_txbuf s"
  by (cases e)
     (auto simp: on_tcp_connected_def on_tcp_sent_def on_tcp_err_def on_tcp_recv_def
        app_tcp_close_def tcp_force_abort_def Let_def)

lemma foldl_deliver_frame:
  "connect_attempts (foldl deliver s evs) = connect_attempts s \<and>
   g_tcp_txbuf (foldl deliver s evs) = g_tcp_txbuf s"
  by (induction evs arbitrary: s) (simp_all add: deliver_attempts deliver_txbuf)

lemma start_connect_attempts:
  "tcp_start_connect E now s = s \<or>
   connect_attempts (tcp_start_connect E now s) = Suc (connect_attempts s)"
  by (auto simp: tcp_start_connect_def tcp_force_abort_def Let_def connect_attempts_def)

lemma start_connect_txbuf: "g_tcp_txbuf (tcp_start_connect E now s) = g_tcp_txbuf s"
  by (auto simp: tcp_start_connect_def tcp_force_abort_def Let_def)

lemma Poll_txbuf: "g_tcp_txbuf (APP_NET_Poll E evs now s) = g_tcp_txbuf s"
  using foldl_deliver_frame [of "s\<lparr>lwip := lwip s @ [Lwip_process]\<rparr>" evs]
  by (simp add: APP_NET_Poll_def Let_def start_connect_txbuf)

lemma Poll_held:
  assumes "slot_held a s" "Ev_sent \<notin> set evs"
  shows "slot_held a (APP_NET_Poll E evs now s)"
proof -
  define s0 where "s0 = s\<lparr>lwip := lwip s @ [Lwip_process]\<rparr>"
  define s1 where "s1 = foldl deliver s0 evs"
  have a0: "connect_attempts s0 = connect_attempts s"
    by (simp add: s0_def connect_attempts_def)
  have a1: "connect_attempts s1 = connect_attempts s"
    unfolding s1_def using foldl_deliver_frame [of s0 evs] a0 by simp
  have h1: "slot_held a s1"
  proof (cases "a < connect_attempts s")
    case True
    then show ?thesis using a1 by (simp add: slot_held_def)
  next
    case False
    then have "g_tcp_txlen s0 \<noteq> 0 \<or> g_tcp s0 = None"
      using assms(1) by (auto simp: slot_held_def s0_def)
    then have "g_tcp_txlen s1 \<noteq> 0 \<or> g_tcp s1 = None"
      unfolding s1_def using assms(2) by (intro foldl_deliver_pending) auto
    then show ?thesis using assms(1) a1 by (auto simp: slot_held_def)
  qed
  have h2: "slot_held a ((tcp_start_connect E now s1)\<lparr>g_next_tcp_reconnect_ms := d\<rparr>)" for d
    using start_connect_attempts [of E now s1] h1
    by (auto simp: slot_held_def connect_attempts_def)
  show ?thesis
    using h1 h2 by (simp add: APP_NET_Poll_def Let_def s0_def [symmetric] s1_def [symmetric])
qed

lemma SendUDP_frame:
  "g_tcp_txlen (snd (APP_NET_SendUDP E t s)) = g_tcp_txlen s \<and>
   g_tcp (snd (APP_NET_SendUDP E t s)) = g_tcp s \<and>
   g_tcp_txbuf (snd (APP_NET_SendUDP E t s)) = g_tcp_txbuf s \<and>
   connect_attempts (snd (APP_NET_SendUDP E t s)) = connect_attempts s"
  by (auto simp: APP_NET_SendUDP_def udp_init_once_def snprintf_def Let_def
      connect_attempts_def split: option.splits)

lemma Init_frame:
  "g_tcp_txlen (APP_NET_Init E ip s) = g_tcp_txlen s \<and>
   g_tcp (APP_NET_Init E ip s) = g_tcp s \<and>
   g_tcp_txbuf (APP_NET_Init E ip s) = g_tcp_txbuf s \<and>
   connect_attempts (APP_NET_Init E ip s) = connect_attempts s"
  by (auto simp: APP_NET_Init_def udp_init_once_def Let_def connect_attempts_def
      split: option.splits)

lemma SetRemote_frame:
  "(snd (APP_NET_SetRemote ip up tp s) = s \<or> g_tcp (snd (APP_NET_SetRemote ip up tp s)) = None) \<and>
   g_tcp_txbuf (snd (APP_NET_SetRemote ip up tp s)) = g_tcp_txbuf s \<and>
   connect_attempts (snd (APP_NET_SetRemote ip up tp s)) = connect_attempts s"
  by (auto simp: APP_NET_SetRemote_def app_tcp_close_def Let_def connect_attempts_def
      split: option.splits)

lemma step_held:
  assumes "slot_held a s" "Ev_sent \<notin> set (op_events op)"
  shows "slot_held a (net_step s op)"
proof (cases op)
  case (Op_Init E ip)
  then show ?thesis using assms(1) Init_frame [of E ip s] by (simp add: slot_held_def)
next
  case (Op_SetRemote ip up tp)
  then show ?thesis using assms(1) SetRemote_frame [of ip up tp s] by (auto simp: slot_held_def)
next
  case (Op_Poll E evs now)
  then show ?thesis using assms by (simp add: Poll_held)
next
  case (Op_SendUDP E t)
  then show ?thesis using assms(1) SendUDP_frame [of E t s] by (simp add: slot_held_def)
qed

lemma step_txbuf: "g_tcp_txbuf (net_step s op) = g_tcp_txbuf s"
  by (cases op) (simp_all add: Init_frame SetRemote_frame Poll_txbuf SendUDP_frame)

lemma run_held:
  "slot_held a s \<Longrightarrow> \<forall>op\<in>set ops. Ev_sent \<notin> set (op_events op) \<Longrightarrow>
     slot_held a (foldl net_step s ops) \<and>
     g_tcp_txbuf (foldl net_step s ops) = g_tcp_txbuf s"
proof (induction ops arbitrary: s)
  case Nil
  then show ?case by simp
next
  case (Cons op ops)
  have "slot_held a (net_step s op)" using Cons.prems by (intro step_held) auto
  then show ?case using Cons.IH [of "net_step s op"] Cons.prems(2) by (simp add: step_txbuf)
qed

text \<open>
  Claim C5, amended. In every state and for every sample, \<open>APP_NET_SendTCP\<close> returns false
  and leaves the whole client state (pending buffer, guard, calls made into the stack) as
  it was whenever the guard \<open>g_tcp_txlen\<close> is nonzero or the connection state is not
  \<open>TCP_UP\<close>. Of two calls, the second returns false and changes nothing, the buffer still
  holding the message of the first, provided that the first call returned true, that no
  sent callback was delivered in between, and that no new connection attempt was made in
  between; what may happen in between is any sequence of polls with their callbacks, of
  datagram sends, of changes of the remote and of initialisations.
\<close>

theorem C5_send_rejected_when_pending_or_not_up:
  "(g_tcp_txlen s \<noteq> 0 \<or> g_tcp_state s \<noteq> TCP_UP \<longrightarrow> APP_NET_SendTCP E t s = (False, s)) \<and>
   (let s1 = snd (APP_NET_SendTCP E1 t1 s); s2 = foldl net_step s1 ops in
      fst (APP_NET_SendTCP E1 t1 s) \<and> (\<forall>op\<in>set ops. Ev_sent \<notin> set (op_events op)) \<and>
      connect_attempts s2 = connect_attempts s1 \<longrightarrow>
        g_tcp_txlen s1 \<noteq> 0 \<and> g_tcp_txbuf s2 = g_tcp_txbuf s1 \<and>
        APP_NET_SendTCP E2 t2 s2 = (False, s2))"
proof -
  have a: "APP_NET_SendTCP E t s = (False, s)"
    if "g_tcp_txlen s \<noteq> 0 \<or> g_tcp_state s \<noteq> TCP_UP"
    using that by (intro SendTCP_reject) auto
  define s1 where "s1 = snd (APP_NET_SendTCP E1 t1 s)"
  define s2 where "s2 = foldl net_step s1 ops"
  have b: "g_tcp_txlen s1 \<noteq> 0 \<and> g_tcp_txbuf s2 = g_tcp_txbuf s1 \<and>
      APP_NET_SendTCP E2 t2 s2 = (False, s2)"
    if acc: "fst (APP_NET_SendTCP E1 t1 s)"
      and ev: "\<forall>op\<in>set ops. Ev_sent \<notin> set (op_events op)"
      and att: "connect_attempts s2 = connect_attempts s1"
  proof -
    have p: "g_tcp_txlen s1 \<noteq> 0" unfolding s1_def by (rule SendTCP_accept(2) [OF acc])
    then have "slot_held (connect_attempts s1) s1" by (simp add: slot_held_def)
    then have h: "slot_held (connect_attempts s1) s2" and buf: "g_tcp_txbuf s2 = g_tcp_txbuf s1"
      unfolding s2_def using run_held [of "connect_attempts s1" s1 ops] ev by blast+
    from h att have "g_tcp_txlen s2 \<noteq> 0 \<or> g_tcp s2 = None" by (simp add: slot_held_def)
    then have "APP_NET_SendTCP E2 t2 s2 = (False, s2)" by (intro SendTCP_reject) auto
    then show ?thesis using p buf by simp
  qed
  show ?thesis unfolding Let_def s1_def [symmetric] s2_def [symmetric] using a b by blast
qed

lemma net_up_facts:
  "g_tcp_state net_up = TCP_UP" "g_tcp net_up = Some 2" "g_tcp_txlen net_up = 0"
  by (simp_all add: net_up_def APP_NET_Poll_def APP_NET_Init_def net_static_def lwip_ok_def
      udp_init_once_def APP_NET_TcpIsConnected_def tcp_start_connect_def Let_def
      on_tcp_connected_def)

lemma SendTCP_ok:
  assumes "g_tcp_state s = TCP_UP" "g_tcp s \<noteq> None" "g_tcp_txlen s = 0"
    "tcp_write_err E = ERR_OK" "tcp_output_err E = ERR_OK"
  shows "fst (APP_NET_SendTCP E (Some m) s)"
  using assms telemetry_fmt_nonempty [of m]
  by (simp add: APP_NET_SendTCP_def APP_NET_TcpIsConnected_def snprintf_def Let_def)

lemma net_pending_facts:
  "fst (APP_NET_SendTCP lwip_ok (Some sample0) net_up)" "g_tcp_txlen net_pending \<noteq> 0"
proof -
  show a: "fst (APP_NET_SendTCP lwip_ok (Some sample0) net_up)"
    by (rule SendTCP_ok) (simp_all add: net_up_facts lwip_ok_def)
  show "g_tcp_txlen net_pending \<noteq> 0"
    unfolding net_pending_def by (rule SendTCP_accept(2) [OF a])
qed

lemma SendTCP_frame:
  "g_tcp_state (snd (APP_NET_SendTCP E t s)) = g_tcp_state s \<and>
   g_tcp (snd (APP_NET_SendTCP E t s)) = g_tcp s \<and>
   g_next_tcp_reconnect_ms (snd (APP_NET_SendTCP E t s)) = g_next_tcp_reconnect_ms s \<and>
   connect_attempts (snd (APP_NET_SendTCP E t s)) = connect_attempts s"
  by (auto simp: APP_NET_SendTCP_def snprintf_def Let_def connect_attempts_def
      split: option.splits)

lemma Poll_connected_recv:
  assumes "g_tcp_state s = TCP_UP" "g_tcp s \<noteq> None"
  shows "APP_NET_Poll E [Ev_recv True] now s = s\<lparr>lwip := lwip s @ [Lwip_process]\<rparr>"
  using assms by (auto simp: APP_NET_Poll_def APP_NET_TcpIsConnected_def on_tcp_recv_def Let_def)

theorem C5_witness:
  "APP_NET_SendTCP lwip_ok (Some sample0) net_pending = (False, net_pending) \<and>
   (let s2 = foldl net_step net_pending
               [Op_Poll lwip_ok [Ev_recv True] 10, Op_SendUDP lwip_ok (Some sample0)]
    in APP_NET_SendTCP lwip_ok (Some sample0) s2 = (False, s2))"
proof -
  define ops where "ops = [Op_Poll lwip_ok [Ev_recv True] 10, Op_SendUDP lwip_ok (Some sample0)]"
  have h: "\<forall>op\<in>set ops. Ev_sent \<notin> set (op_events op)" by (simp add: ops_def)
  have c: "g_tcp_state net_pending = TCP_UP" "g_tcp net_pending \<noteq> None"
    using SendTCP_frame [of lwip_ok "Some sample0" net_up] net_up_facts
    by (simp_all add: net_pending_def)
  have att: "connect_attempts (foldl net_step net_pending ops) = connect_attempts net_pending"
    using SendUDP_frame [of lwip_ok "Some sample0"
        "net_pending\<lparr>lwip := lwip net_pending @ [Lwip_process]\<rparr>"]
    by (simp add: ops_def Poll_connected_recv [OF c] connect_attempts_def)
  show ?thesis
    using C5_send_rejected_when_pending_or_not_up
      [where s = net_pending and E = lwip_ok and t = "Some sample0" and ?E1.0 = lwip_ok
         and ?t1.0 = "Some sample0" and ops = "[]" and ?E2.0 = lwip_ok and ?t2.0 = "Some sample0"]
      C5_send_rejected_when_pending_or_not_up
      [where s = net_up and E = lwip_ok and t = "Some sample0" and ?E1.0 = lwip_ok
         and ?t1.0 = "Some sample0" and ops = ops and ?E2.0 = lwip_ok
         and ?t2.0 = "Some sample0"]
      net_pending_facts h att
    by (simp add: Let_def net_pending_def ops_def)
qed

lemma net_up_deadline: "g_next_tcp_reconnect_ms net_up = 2000"
  by (simp add: net_up_def APP_NET_Poll_def APP_NET_Init_def net_static_def lwip_ok_def
      udp_init_once_def APP_NET_TcpIsConnected_def tcp_start_connect_def Let_def
      on_tcp_connected_def)

lemma Poll_reset_reconnect:
  assumes "g_next_tcp_reconnect_ms s = 2000" "tcp_new_pcb E \<noteq> None" "tcp_connect_err E = ERR_OK"
  shows "g_tcp_state (APP_NET_Poll E [Ev_err] 2000 s) = TCP_CONNECTING"
    "g_tcp (APP_NET_Poll E [Ev_err] 2000 s) \<noteq> None"
    "g_tcp_txlen (APP_NET_Poll E [Ev_err] 2000 s) = 0"
  using assms
  by (simp_all add: APP_NET_Poll_def APP_NET_TcpIsConnected_def on_tcp_err_def
      tcp_start_connect_def Let_def)

lemma Poll_connected_ok:
  assumes "g_tcp s \<noteq> None"
  shows "g_tcp_state (APP_NET_Poll E [Ev_connected ERR_OK] now s) = TCP_UP"
    "g_tcp (APP_NET_Poll E [Ev_connected ERR_OK] now s) = g_tcp s"
    "g_tcp_txlen (APP_NET_Poll E [Ev_connected ERR_OK] now s) = g_tcp_txlen s"
  using assms
  by (auto simp: APP_NET_Poll_def APP_NET_TcpIsConnected_def on_tcp_connected_def Let_def)

text \<open>
  The claim as stated, that the second of two calls with no sent callback in between
  returns false, fails on the code in two ways. When \<^verbatim>\<open>tcp_write\<close> fails in the first call,
  that call clears the guard and returns false, and the next call is accepted. When the
  first call is accepted and the connection is reset and established again (error callback
  and reconnect in the poll at tick 2000, connected callback in the poll at tick 2010),
  the reset clears the guard and the next call is accepted.
\<close>

theorem C5_counterexample:
  "(let r1 = APP_NET_SendTCP lwip_write_fails (Some sample0) net_up;
        r2 = APP_NET_SendTCP lwip_ok (Some sample0) (snd r1)
    in g_tcp_state net_up = TCP_UP \<and> g_tcp_txlen net_up = 0 \<and> \<not> fst r1 \<and> fst r2) \<and>
   (let r1 = APP_NET_SendTCP lwip_ok (Some sample0) net_up;
        s2 = foldl net_step (snd r1)
               [Op_Poll lwip_ok [Ev_err] 2000, Op_Poll lwip_ok [Ev_connected ERR_OK] 2010];
        r2 = APP_NET_SendTCP lwip_ok (Some sample0) s2
    in fst r1 \<and> fst r2)"
proof -
  define r1 where "r1 = APP_NET_SendTCP lwip_write_fails (Some sample0) net_up"
  have f1: "\<not> fst r1"
    using telemetry_fmt_nonempty [of sample0]
    by (simp add: r1_def APP_NET_SendTCP_def APP_NET_TcpIsConnected_def net_up_facts
        snprintf_def Let_def lwip_write_fails_def lwip_ok_def)
  have g1: "g_tcp_state (snd r1) = TCP_UP" "g_tcp (snd r1) \<noteq> None" "g_tcp_txlen (snd r1) = 0"
    using SendTCP_frame [of lwip_write_fails "Some sample0" net_up]
      SendTCP_fail_guard [of lwip_write_fails "Some sample0" net_up] f1 net_up_facts
    by (simp_all add: r1_def)
  have f2: "fst (APP_NET_SendTCP lwip_ok (Some sample0) (snd r1))"
    by (rule SendTCP_ok) (simp_all add: g1 lwip_ok_def)
  define p1 where "p1 = APP_NET_Poll lwip_ok [Ev_err] 2000 net_pending"
  define p2 where "p2 = APP_NET_Poll lwip_ok [Ev_connected ERR_OK] 2010 p1"
  have d: "g_next_tcp_reconnect_ms net_pending = 2000"
    using SendTCP_frame [of lwip_ok "Some sample0" net_up] net_up_deadline
    by (simp add: net_pending_def)
  have q1: "g_tcp p1 \<noteq> None" "g_tcp_txlen p1 = 0"
    unfolding p1_def by (rule Poll_reset_reconnect [OF d]; simp add: lwip_ok_def)+
  have q2: "g_tcp_state p2 = TCP_UP" "g_tcp p2 \<noteq> None" "g_tcp_txlen p2 = 0"
    unfolding p2_def using Poll_connected_ok [OF q1(1), of lwip_ok 2010] q1 by simp_all
  have f3: "fst (APP_NET_SendTCP lwip_ok (Some sample0) p2)"
    by (rule SendTCP_ok) (simp_all add: q2 lwip_ok_def)
  show ?thesis
    using f1 f2 f3 net_up_facts net_pending_facts(1)
    by (simp add: Let_def r1_def p1_def p2_def net_pending_def)
qed








section \<open>Telemetry client: the reconnect deadline\<close>

text \<open>
  Claim C6 fails on the code at one value of the clock. \<open>APP_NET_Poll\<close> treats a
  deadline of 0 as "no deadline". An attempt made at tick \<open>2^32 - 2000\<close> = 0xFFFFF830
  stores the deadline \<open>now + 2000\<close> = 0, so the poll 10 ms later starts the next
  attempt at once. Here the remote refuses every connection: attempts are made at
  0xFFFFF060, at 0xFFFFF830 (2000 ms later, as intended) and again at 0xFFFFF83A.
\<close>

theorem C6_reconnect_deadline_zero:
  "(let s1 = APP_NET_Poll lwip_refused [] 0xFFFFF060 net_down;
        s2 = APP_NET_Poll lwip_refused [] 0xFFFFF830 s1;
        s3 = APP_NET_Poll lwip_refused [] 0xFFFFF83A s2
    in connect_attempts net_down = 0 \<and>
       connect_attempts s1 = 1 \<and> g_next_tcp_reconnect_ms s1 = 0xFFFFF830 \<and>
       connect_attempts s2 = 2 \<and> g_next_tcp_reconnect_ms s2 = 0 \<and>
       connect_attempts s3 = 3 \<and>
       unat (0xFFFFF83A - 0xFFFFF830 :: u32) = 10)"
  by (simp add: Let_def APP_NET_Poll_def net_down_def APP_NET_Init_def net_static_def
      lwip_ok_def lwip_refused_def udp_init_once_def APP_NET_TcpIsConnected_def
      tcp_start_connect_def tcp_force_abort_def connect_attempts_def)

lemma deliver_deadline: "g_next_tcp_reconnect_ms (deliver s e) = g_next_tcp_reconnect_ms s"
  by (cases e)
     (auto simp: on_tcp_connected_def on_tcp_sent_def on_tcp_err_def on_tcp_recv_def
        app_tcp_close_def tcp_force_abort_def Let_def)

lemma foldl_deliver_attempts:
  "connect_attempts (foldl deliver s evs) = connect_attempts s \<and>
   g_next_tcp_reconnect_ms (foldl deliver s evs) = g_next_tcp_reconnect_ms s"
  by (induction evs arbitrary: s) (simp_all add: deliver_attempts deliver_deadline)

text \<open>Apart from the deadline value 0, a poll before the deadline starts no connection.\<close>

lemma Poll_gated:
  assumes "g_next_tcp_reconnect_ms s \<noteq> 0" "sint (now - g_next_tcp_reconnect_ms s) < 0"
  shows "connect_attempts (APP_NET_Poll E evs now s) = connect_attempts s"
    and "g_next_tcp_reconnect_ms (APP_NET_Poll E evs now s) = g_next_tcp_reconnect_ms s"
proof -
  define s1 where "s1 = foldl deliver (s\<lparr>lwip := lwip s @ [Lwip_process]\<rparr>) evs"
  have a: "connect_attempts s1 = connect_attempts s"
    and d: "g_next_tcp_reconnect_ms s1 = g_next_tcp_reconnect_ms s"
    unfolding s1_def using foldl_deliver_attempts [of "s\<lparr>lwip := lwip s @ [Lwip_process]\<rparr>" evs]
    by (simp_all add: connect_attempts_def)
  have "APP_NET_Poll E evs now s = s1"
    using assms d by (simp add: APP_NET_Poll_def Let_def s1_def [symmetric])
  then show "connect_attempts (APP_NET_Poll E evs now s) = connect_attempts s"
    and "g_next_tcp_reconnect_ms (APP_NET_Poll E evs now s) = g_next_tcp_reconnect_ms s"
    using a d by simp_all
qed

section \<open>Telemetry codec: decoding what was serialised\<close>

lemma digit_char_is_digit: "d < 10 \<Longrightarrow> is_digit (digit_char d)"
  by (simp add: is_digit_def digit_char_def)

lemma digit_val_digit_char: "d < 10 \<Longrightarrow> digit_val (digit_char d) = d"
  by (simp add: digit_val_def digit_char_def)

lemma dec_nat_digits: "c \<in> set (dec_nat n) \<Longrightarrow> is_digit c"
proof (induction n rule: dec_nat.induct)
  case (1 n)
  show ?case
  proof (cases "n < 10")
    case True
    then show ?thesis using "1.prems" by (subst (asm) dec_nat.simps) (auto simp: digit_char_is_digit)
  next
    case False
    then show ?thesis
      using "1.prems" "1.IH"
      by (subst (asm) dec_nat.simps) (auto simp: digit_char_is_digit)
  qed
qed

lemma dec_nat_nonempty: "dec_nat n \<noteq> []"
  by (subst dec_nat.simps) simp

lemma parse_dec_snoc: "parse_dec (ds @ [c]) = 10 * parse_dec ds + digit_val c"
  by (simp add: parse_dec_def)

lemma parse_dec_dec_nat: "parse_dec (dec_nat n) = n"
proof (induction n rule: dec_nat.induct)
  case (1 n)
  show ?case
  proof (cases "n < 10")
    case True
    then show ?thesis
      by (subst dec_nat.simps) (simp add: parse_dec_def digit_val_digit_char)
  next
    case False
    then have "parse_dec (dec_nat (n div 10)) = n div 10" using "1.IH" by simp
    then show ?thesis
      using False
      by (subst dec_nat.simps) (simp add: parse_dec_snoc digit_val_digit_char)
  qed
qed

lemma length_dec_nat: "n < 10 ^ k \<Longrightarrow> 0 < k \<Longrightarrow> length (dec_nat n) \<le> k"
proof (induction n arbitrary: k rule: dec_nat.induct)
  case (1 n)
  show ?case
  proof (cases "n < 10")
    case True
    then show ?thesis using "1.prems"(2) by (subst dec_nat.simps) simp
  next
    case False
    then have "k \<noteq> 1" using "1.prems"(1) by auto
    then obtain j where k: "k = Suc j" "0 < j" using "1.prems"(2) by (cases k) auto
    have "n div 10 < 10 ^ j" using "1.prems"(1) k by (simp add: less_mult_imp_div_less mult.commute)
    then have "length (dec_nat (n div 10)) \<le> j" using "1.IH" False k by simp
    then show ?thesis using False k by (subst dec_nat.simps) simp
  qed
qed


lemma strip_prefix_append: "strip_prefix p (p @ x) = Some x"
  by (induction p) simp_all

lemma takeWhile_digits:
  "\<forall>c\<in>set ds. is_digit c \<Longrightarrow> \<not> is_digit x \<Longrightarrow>
     takeWhile is_digit (ds @ x # r) = ds \<and> dropWhile is_digit (ds @ x # r) = x # r"
  by (induction ds) simp_all

lemma take_past_prefix:
  "length a < n \<Longrightarrow> take n (a @ c # b) = a @ c # take (n - Suc (length a)) b"
  by (simp add: take_Cons')

lemma not_digit_comma: "\<not> is_digit (CHR '','')" and not_digit_minus: "\<not> is_digit (CHR ''-'')"
  by (simp_all add: is_digit_def)

lemma length_dec_u32: "length (dec_nat (unat (w :: u32))) \<le> 10"
proof -
  have "unat w < 2 ^ 32" using unsigned_less [of w] by simp
  also have "\<dots> < (10::nat) ^ 10" by simp
  finally show ?thesis by (intro length_dec_nat) simp_all
qed

lemma length_dec_s32: "length (dec_int (sint (w :: 32 word))) \<le> 11"
proof -
  have lo: "- (2 ^ 31) \<le> sint w" and hi: "sint w < 2 ^ 31"
    using sint_ge [of w] sint_lt [of w] by simp_all
  have "nat \<bar>sint w\<bar> < 10 ^ 10" using lo hi by simp
  then have a: "length (dec_nat (nat \<bar>sint w\<bar>)) \<le> 10" by (intro length_dec_nat) simp_all
  show ?thesis
  proof (cases "sint w < 0")
    case True
    then have "nat (- sint w) = nat \<bar>sint w\<bar>" by simp
    then show ?thesis using a True by (simp add: dec_int_def)
  next
    case False
    then have "nat (sint w) = nat \<bar>sint w\<bar>" by simp
    then show ?thesis using a False by (simp add: dec_int_def)
  qed
qed

text \<open>Reading a signed decimal number that is followed by a comma.\<close>

lemma read_dec_int:
  fixes i :: int and r :: string
  defines "y \<equiv> dec_int i @ CHR '','' # r"
  defines "neg \<equiv> (y \<noteq> [] \<and> hd y = CHR ''-'')"
  defines "es \<equiv> takeWhile is_digit (if neg then tl y else y)"
  shows "es \<noteq> [] \<and> (if neg then - int (parse_dec es) else int (parse_dec es)) = i"
proof (cases "i < 0")
  case True
  then have y: "y = CHR ''-'' # dec_nat (nat (- i)) @ CHR '','' # r"
    by (simp add: y_def dec_int_def)
  then have n: "neg" by (simp add: neg_def)
  have "es = dec_nat (nat (- i))"
    using takeWhile_digits [of "dec_nat (nat (- i))" "CHR '',''" r] dec_nat_digits not_digit_comma
    by (simp add: es_def n y)
  then show ?thesis using n True by (simp add: dec_nat_nonempty parse_dec_dec_nat)
next
  case False
  then have y: "y = dec_nat (nat i) @ CHR '','' # r" by (simp add: y_def dec_int_def)
  have "hd (dec_nat (nat i)) \<in> set (dec_nat (nat i))" using dec_nat_nonempty by simp
  then have "is_digit (hd (dec_nat (nat i)))" by (rule dec_nat_digits)
  then have "hd (dec_nat (nat i)) \<noteq> CHR ''-''" using not_digit_minus by auto
  then have n: "\<not> neg" using dec_nat_nonempty [of "nat i"] by (simp add: neg_def y)
  have "es = dec_nat (nat i)"
    using takeWhile_digits [of "dec_nat (nat i)" "CHR '',''" r] dec_nat_digits not_digit_comma
    by (simp add: es_def n y)
  then show ?thesis using n False by (simp add: dec_nat_nonempty parse_dec_dec_nat)
qed

lemma decode_shape:
  assumes \<open>line = ''{"ts":'' @ dec_nat n @ '',"i2c":'' @ dec_int i @ CHR '','' # r\<close>
  shows "decode_record line = Some (n, i)"
proof -
  define y where "y = dec_int i @ CHR '','' # r"
  define x where \<open>x = dec_nat n @ CHR '','' # (''"i2c":'' @ y)\<close>
  have l: \<open>line = ''{"ts":'' @ x\<close> by (simp add: assms x_def y_def)
  have tw: \<open>takeWhile is_digit x = dec_nat n\<close>
    and dw: \<open>dropWhile is_digit x = '',"i2c":'' @ y\<close>
    using takeWhile_digits [of "dec_nat n" "CHR '',''" \<open>''"i2c":'' @ y\<close>]
      dec_nat_digits not_digit_comma
    by (simp_all add: x_def)
  note rd = read_dec_int [of i r, folded y_def]
  show ?thesis
    unfolding decode_record_def l strip_prefix_append
    using rd
    by (simp add: tw dw Let_def dec_nat_nonempty parse_dec_dec_nat)
qed

lemma decode_wire_record:
  "decode_record (wire_record t) = Some (unat (now_ms t), sint (i2c_temp_c t))"
proof -
  define D where "D = dec_nat (unat (now_ms t))"
  define I where "I = dec_int (sint (i2c_temp_c t))"
  define R where \<open>R = ''"can101":"'' @ c_str (can_0x101 t) @ ''","can120":"'' @
      c_str (can_0x120 t) @ ''"}'' @ [CHR 0x0A]\<close>
  define A where \<open>A = ''{"ts":'' @ D @ '',"i2c":'' @ I\<close>
  have F: "telemetry_fmt t = A @ CHR '','' # R"
    by (simp add: telemetry_fmt_def A_def D_def I_def R_def)
  have "length A \<le> 34"
    using length_dec_u32 [of "now_ms t"] length_dec_s32 [of "i2c_temp_c t"]
    by (simp add: A_def D_def I_def)
  then have "length A < 255" by simp
  then have "take 255 (A @ CHR '','' # R) = A @ CHR '','' # take (255 - Suc (length A)) R"
    by (rule take_past_prefix)
  moreover have "wire_record t = take 255 (telemetry_fmt t)"
    by (simp add: wire_record_def snprintf_def)
  ultimately have "wire_record t = A @ CHR '','' # take (255 - Suc (length A)) R"
    by (simp only: F)
  then have \<open>wire_record t = ''{"ts":'' @ D @ '',"i2c":'' @ I @ CHR '','' #
      take (255 - Suc (length A)) R\<close>
    by (simp add: A_def)
  then show ?thesis unfolding D_def I_def by (rule decode_shape)
qed


lemma wire_record_take: "wire_record t = take 255 (telemetry_fmt t)"
  by (simp add: wire_record_def snprintf_def)

lemma telemetry_fmt_pos: "0 < length (telemetry_fmt t)"
  by (simp add: telemetry_fmt_def)

lemma take_clipped:
  "take (nat (if int (length F) \<ge> 256 then 256 - 1 else int (length F))) (take 255 F) =
     take 255 F"
  by (simp add: min_def)

lemma SendUDP_payload:
  assumes "g_udp s \<noteq> None" "pbuf_alloc_ok E"
  shows "lwip (snd (APP_NET_SendUDP E (Some t) s)) =
     lwip s @ [Udp_sendto (wire_record t) (g_remote_ip s) (g_udp_port s)]"
proof -
  obtain p where p: "g_udp s = Some p" using assms(1) by auto
  have "\<not> int (length (telemetry_fmt t)) \<le> 0" using telemetry_fmt_pos [of t] by simp
  then show ?thesis
    using assms(2) take_clipped [of "telemetry_fmt t"]
    by (simp add: APP_NET_SendUDP_def snprintf_def Let_def wire_record_take p)
qed

lemma SendTCP_payload:
  assumes "fst (APP_NET_SendTCP E (Some t) s)"
  shows "lwip (snd (APP_NET_SendTCP E (Some t) s)) =
     lwip s @ [Tcp_write (wire_record t), Tcp_output]"
  using SendTCP_accept(4) [OF assms] by (simp add: wire_record_take)

lemma wire_record_whole:
  assumes "length (c_str (can_0x101 t)) \<le> 63" "length (c_str (can_0x120 t)) \<le> 63"
  shows "wire_record t = telemetry_fmt t" "last (wire_record t) = CHR 0x0A"
proof -
  have "length (telemetry_fmt t) \<le> 186"
    using length_dec_u32 [of "now_ms t"] length_dec_s32 [of "i2c_temp_c t"] assms
    by (simp add: telemetry_fmt_def)
  then show w: "wire_record t = telemetry_fmt t" by (simp add: wire_record_take)
  show "last (wire_record t) = CHR 0x0A" unfolding w by (simp add: telemetry_fmt_def)
qed

text \<open>
  Claim C8. For every sample, decoding the wire record recovers the timestamp and the
  sensor reading exactly: the record is the buffer that \<open>snprintf\<close> leaves in
  \<open>APP_NET_SendUDP\<close> and in \<open>APP_NET_SendTCP\<close>, and it is what either sender hands to
  the stack. The cut to 255 characters never reaches the two numbers, whatever the text
  snapshots hold; when both snapshots fit their 64-byte fields the record is the whole
  line and ends with the newline.
\<close>

theorem C8_decode_recovers_timestamp_and_reading:
  "decode_record (wire_record t) = Some (unat (now_ms t), sint (i2c_temp_c t)) \<and>
   (fst (APP_NET_SendTCP E (Some t) s) \<longrightarrow>
      lwip (snd (APP_NET_SendTCP E (Some t) s)) =
        lwip s @ [Tcp_write (wire_record t), Tcp_output]) \<and>
   (g_udp s \<noteq> None \<and> pbuf_alloc_ok E \<longrightarrow>
      lwip (snd (APP_NET_SendUDP E (Some t) s)) =
        lwip s @ [Udp_sendto (wire_record t) (g_remote_ip s) (g_udp_port s)]) \<and>
   (length (c_str (can_0x101 t)) \<le> 63 \<and> length (c_str (can_0x120 t)) \<le> 63 \<longrightarrow>
      wire_record t = telemetry_fmt t \<and> last (wire_record t) = CHR 0x0A)"
  using decode_wire_record [of t] SendTCP_payload [of E t s] SendUDP_payload [of s E t]
    wire_record_whole [of t]
  by blast

theorem C8_witness:
  "decode_record (wire_record sample0) = Some (1000, 25) \<and>
   lwip (snd (APP_NET_SendTCP lwip_ok (Some sample0) net_up)) =
     lwip net_up @ [Tcp_write (wire_record sample0), Tcp_output] \<and>
   lwip (snd (APP_NET_SendUDP lwip_ok (Some sample0) net_up)) =
     lwip net_up @ [Udp_sendto (wire_record sample0) (g_remote_ip net_up) (g_udp_port net_up)] \<and>
   last (wire_record sample0) = CHR 0x0A"
proof -
  have u: "g_udp net_up \<noteq> None \<and> pbuf_alloc_ok lwip_ok"
    by (simp add: net_up_def APP_NET_Poll_def APP_NET_Init_def net_static_def lwip_ok_def
      udp_init_once_def APP_NET_TcpIsConnected_def tcp_start_connect_def Let_def
      on_tcp_connected_def)
  have l: "length (c_str (can_0x101 sample0)) \<le> 63 \<and> length (c_str (can_0x120 sample0)) \<le> 63"
    by (simp add: sample0_def c_str_def)
  have v: "unat (now_ms sample0) = 1000" "sint (i2c_temp_c sample0) = 25"
    by (simp_all add: sample0_def)
  have "decode_record (wire_record sample0) =
      Some (unat (now_ms sample0), sint (i2c_temp_c sample0)) \<and>
   lwip (snd (APP_NET_SendTCP lwip_ok (Some sample0) net_up)) =
     lwip net_up @ [Tcp_write (wire_record sample0), Tcp_output] \<and>
   lwip (snd (APP_NET_SendUDP lwip_ok (Some sample0) net_up)) =
     lwip net_up @ [Udp_sendto (wire_record sample0) (g_remote_ip net_up) (g_udp_port net_up)] \<and>
   last (wire_record sample0) = CHR 0x0A"
    using C8_decode_recovers_timestamp_and_reading [of sample0 lwip_ok net_up]
      net_pending_facts(1) u l
    by blast
  then show ?thesis by (simp only: v)
qed

section \<open>Scheduler: the idle wait\<close>

lemma called_sel [simp]:
  "trace (called c s) = trace s @ [c]" "tft (called c s) = tft s" "cons (called c s) = cons s"
  by (simp_all add: called_def)

lemma do_trace [simp]:
  "trace (do_APP_NET_Service E now s) = trace s @ [Call_APP_NET_Service]"
  "trace (do_App_USB_Service E s) = trace s @ [Call_App_USB_Service]"
  "trace (do_App_CAN_Service now s) = trace s @ [Call_App_CAN_Service]"
  "trace (do_App_I2C_Service E now s) = trace s @ [Call_App_I2C_Service]"
  "trace (do_TFT_Task E s) = trace s @ [Call_TFT_Task]"
  "trace (do_App_TFT_Service E now s) = trace s @ [Call_App_TFT_Service]"
  "trace (do_App_CLI_Service E s) = trace s @ [Call_App_CLI_Service]"
  "trace (do_App_Tick E s) = trace s @ [Call_App_Tick]"
  by (simp_all add: do_APP_NET_Service_def do_App_USB_Service_def do_App_CAN_Service_def
      do_App_I2C_Service_def do_TFT_Task_def do_App_TFT_Service_def do_App_CLI_Service_def
      do_App_Tick_def split: prod.splits)

text \<open>
  Claim C9. One iteration of the main loop calls the eight service functions in the order
  of main.c and nothing else before the idle wait; the wait-for-interrupt instruction is
  the last step of the iteration when, after all of them have run, the render engine is
  idle and the console output queue is empty, and it is not executed otherwise.
\<close>

theorem C9_idle_wait_after_services:
  "trace (main_loop_body E s) =
     trace s @ loop_services @
       (if \<not> TFT_IsBusy (tft (main_loop_body E s)) \<and>
           App_USBLog_IsEmpty (cons (main_loop_body E s))
        then [Call_WFI] else [])"
  by (simp add: main_loop_body_def Let_def loop_services_def)

end
